theory Spec2Isabelle
  imports Main "HOL-Library.AList" "HOL-Library.Sublist"
begin

section \<open>Canonical model (src/lib/types.ts)\<close>

text \<open>
  Values of TypeScript type \<open>unknown\<close> (a field's \<open>default\<close> and \<open>example\<close>, and the
  deserialized document handed to \<open>parseSpec\<close>) are JSON values. A number is carried as the
  text of its literal: the program never computes with one. An object is the list of its
  entries in \<open>Object.entries\<close> order; its keys are pairwise distinct.
\<close>

datatype json =
    JNull
  | JBool bool
  | JNum string
  | JStr string
  | JArr "json list"
  | JObj "(string \<times> json) list"

text \<open>\<open>ParsedField['type']\<close>: \<open>'string' | 'number' | 'boolean' | 'array' | 'object'\<close>.\<close>

datatype FieldType = TString | TNumber | TBoolean | TArray | TObject

text \<open>
  \<open>interface ParsedField\<close>. An optional member is an \<open>option\<close>; \<open>None\<close> is
  \<open>undefined\<close>. The selectors \<open>enum\<close> and \<open>default\<close> of the source are named
  \<open>enum_values\<close> and \<open>default_value\<close>, \<open>type\<close> is \<open>ftype\<close>.
\<close>

datatype ParsedField = ParsedField
  (key: string)
  (label: string)
  (ftype: FieldType)
  (required: bool)
  (description: "string option")
  (enum_values: "string list option")
  (format: "string option")
  (default_value: "json option")
  (example: "json option")
  (properties: "ParsedField list option")
  (items: "ParsedField option")

text \<open>\<open>ParsedAction['method']\<close>: \<open>'GET' | 'POST' | 'PUT' | 'PATCH' | 'DELETE'\<close>.\<close>

datatype Method = GET | POST | PUT | PATCH | DELETE

fun methodStr :: "Method \<Rightarrow> string" where
  "methodStr GET = ''GET''"
| "methodStr POST = ''POST''"
| "methodStr PUT = ''PUT''"
| "methodStr PATCH = ''PATCH''"
| "methodStr DELETE = ''DELETE''"

text \<open>\<open>interface ParsedAction\<close>.\<close>

record ParsedAction =
  slug :: string
  action_label :: string
  action_description :: string
  "method" :: Method
  path :: string
  pathParams :: "ParsedField list"
  queryParams :: "ParsedField list"
  bodySchema :: "ParsedField list"
  responseSchema :: "ParsedField list"
  tags :: "string list option"
  deprecated :: "bool option"

section \<open>Diff engine (src/lib/diff-engine.ts)\<close>

datatype ChangeType = Breaking | NonBreaking

text \<open>\<open>interface DiffChange\<close>; \<open>type\<close> is \<open>change_type\<close>.\<close>

record DiffChange =
  change_type :: ChangeType
  category :: string
  message :: string
  change_method :: "string option"
  change_path :: "string option"

record DiffResult =
  changes :: "DiffChange list"
  breakingCount :: nat
  nonBreakingCount :: nat

text \<open>
  A JavaScript \<open>Map\<close> is the list of its entries in iteration order. \<open>set\<close> on a key
  that is present replaces the value and keeps the entry's place; on a new key it appends
  an entry. That is \<^const>\<open>AList.update\<close>. \<open>get\<close> is \<^const>\<open>map_of\<close>.
\<close>

definition mapSet :: "'k \<Rightarrow> 'v \<Rightarrow> ('k \<times> 'v) list \<Rightarrow> ('k \<times> 'v) list" where
  "mapSet k v m = AList.update k v m"

definition mapGet :: "('k \<times> 'v) list \<Rightarrow> 'k \<Rightarrow> 'v option" where
  "mapGet m k = map_of m k"

definition mapHas :: "('k \<times> 'v) list \<Rightarrow> 'k \<Rightarrow> bool" where
  "mapHas m k = (map_of m k \<noteq> None)"

text \<open>
  A JavaScript \<open>Set\<close> is the list of its members in iteration order, which is the order
  of first insertion. \<open>new Set(xs)\<close> adds the elements of \<open>xs\<close> from left to right.
\<close>

definition setAdd :: "'a list \<Rightarrow> 'a \<Rightarrow> 'a list" where
  "setAdd s x = (if x \<in> set s then s else s @ [x])"

definition newSet :: "'a list \<Rightarrow> 'a list" where
  "newSet xs = foldl setAdd [] xs"

definition setHas :: "'a list \<Rightarrow> 'a \<Rightarrow> bool" where
  "setHas s x = (x \<in> set s)"

text \<open>The double quote character of the message templates.\<close>

definition dquote :: string where
  "dquote = [CHR 0x22]"

text \<open>\<open>${old.type}\<close>: the text of a field type.\<close>

fun fieldTypeStr :: "FieldType \<Rightarrow> string" where
  "fieldTypeStr TString = ''string''"
| "fieldTypeStr TNumber = ''number''"
| "fieldTypeStr TBoolean = ''boolean''"
| "fieldTypeStr TArray = ''array''"
| "fieldTypeStr TObject = ''object''"

text \<open>The object literal pushed onto \<open>changes\<close>: all five members are always set.\<close>

definition mkChange :: "ChangeType \<Rightarrow> string \<Rightarrow> string \<Rightarrow> Method \<Rightarrow> string \<Rightarrow> DiffChange" where
  "mkChange t c msg m p =
     \<lparr>change_type = t, category = c, message = msg,
      change_method = Some (methodStr m), change_path = Some p\<rparr>"

text \<open>The template \<open>`${a.method} ${a.path}`\<close>, the key of the lookup maps.\<close>

definition actionKey :: "ParsedAction \<Rightarrow> string" where
  "actionKey a = methodStr (method a) @ '' '' @ path a"

text \<open>
  \<open>compareEndpoints\<close> pushes onto the caller's \<open>changes\<close> array; the model takes the
  array and returns it extended. Each \<open>for\<close> loop is a \<^const>\<open>foldl\<close> over the
  iterated collection with the array as its state.
\<close>

definition compareEndpoints ::
  "ParsedAction \<Rightarrow> ParsedAction \<Rightarrow> DiffChange list \<Rightarrow> DiffChange list" where
  "compareEndpoints oldAction newAction changes0 =
    (let m = method newAction;
         p = path newAction;
         on = '' on '' @ methodStr m @ '' '' @ p;
         from = '' from '' @ methodStr m @ '' '' @ p;
         oldParams = queryParams oldAction @ pathParams oldAction;
         newParams = queryParams newAction @ pathParams newAction;
         oldRequiredParams = newSet (map key (filter required oldParams));
         newRequiredParams = filter required newParams;
         changes1 = foldl (\<lambda>cs param.
             if \<not> setHas oldRequiredParams (key param)
             then cs @ [mkChange Breaking ''required-param-added''
                    (''Required parameter added: '' @ dquote @ key param @ dquote @ on) m p]
             else cs) changes0 newRequiredParams;
         oldAllParams = newSet (map key oldParams);
         newOptionalParams = filter (\<lambda>q. \<not> required q) newParams;
         changes2 = foldl (\<lambda>cs param.
             if \<not> setHas oldAllParams (key param)
             then cs @ [mkChange NonBreaking ''optional-param-added''
                    (''Optional parameter added: '' @ dquote @ key param @ dquote @ on) m p]
             else cs) changes1 newOptionalParams;
         newAllParams = newSet (map key newParams);
         changes3 = foldl (\<lambda>cs k.
             if \<not> setHas newAllParams k
             then cs @ [mkChange Breaking ''param-removed''
                    (''Parameter removed: '' @ dquote @ k @ dquote @ from) m p]
             else cs) changes2 oldAllParams;
         oldParamMap = foldl (\<lambda>mp q. mapSet (key q) q mp) [] oldParams;
         changes4 = foldl (\<lambda>cs q.
             (case mapGet oldParamMap (key q) of
                None \<Rightarrow> cs
              | Some old \<Rightarrow>
                  if ftype old \<noteq> ftype q
                  then cs @ [mkChange Breaking ''param-type-changed''
                         (''Parameter type changed: '' @ dquote @ key q @ dquote @ '' ''
                            @ fieldTypeStr (ftype old) @ '' -> '' @ fieldTypeStr (ftype q) @ on) m p]
                  else cs)) changes3 newParams;
         oldBodyKeys = newSet (map key (bodySchema oldAction));
         changes5 = foldl (\<lambda>cs field.
             if required field \<and> \<not> setHas oldBodyKeys (key field)
             then cs @ [mkChange Breaking ''required-body-field-added''
                    (''Required body field added: '' @ dquote @ key field @ dquote @ on) m p]
             else cs) changes4 (bodySchema newAction);
         newResponseKeys = newSet (map key (responseSchema newAction));
         changes6 = foldl (\<lambda>cs field.
             if \<not> setHas newResponseKeys (key field)
             then cs @ [mkChange Breaking ''response-field-removed''
                    (''Response field removed: '' @ dquote @ key field @ dquote @ from) m p]
             else cs) changes5 (responseSchema oldAction)
     in if action_description oldAction \<noteq> action_description newAction
           \<and> action_description oldAction \<noteq> ''''
           \<and> action_description newAction \<noteq> ''''
        then changes6 @ [mkChange NonBreaking ''description-changed''
               (''Description changed'' @ on) m p]
        else changes6)"

text \<open>The two loops of \<open>diffSpecs\<close> that fill \<open>oldMap\<close> and \<open>newMap\<close>.\<close>

definition buildMap :: "ParsedAction list \<Rightarrow> (string \<times> ParsedAction) list" where
  "buildMap actions = foldl (\<lambda>mp a. mapSet (actionKey a) a mp) [] actions"

definition diffSpecs :: "ParsedAction list \<Rightarrow> ParsedAction list \<Rightarrow> DiffResult" where
  "diffSpecs oldActions newActions =
    (let oldMap = buildMap oldActions;
         newMap = buildMap newActions;
         changes1 = foldl (\<lambda>cs (k, oldAction).
             if \<not> mapHas newMap k
             then cs @ [mkChange Breaking ''endpoint-removed''
                    (''Endpoint removed: '' @ methodStr (method oldAction) @ '' '' @ path oldAction)
                    (method oldAction) (path oldAction)]
             else cs) [] oldMap;
         changes2 = foldl (\<lambda>cs (k, newAction).
             if \<not> mapHas oldMap k
             then cs @ [mkChange NonBreaking ''endpoint-added''
                    (''Endpoint added: '' @ methodStr (method newAction) @ '' '' @ path newAction)
                    (method newAction) (path newAction)]
             else cs) changes1 newMap;
         changes3 = foldl (\<lambda>cs (k, newAction).
             (case mapGet oldMap k of
                None \<Rightarrow> cs
              | Some oldAction \<Rightarrow> compareEndpoints oldAction newAction cs)) changes2 newMap
     in \<lparr>changes = changes3,
         breakingCount = length (filter (\<lambda>c. change_type c = Breaking) changes3),
         nonBreakingCount = length (filter (\<lambda>c. change_type c = NonBreaking) changes3)\<rparr>)"

subsection \<open>Actions with absent collections\<close>

text \<open>
  \<open>diffSpecs\<close> is exported, and at run time nothing holds a caller to the declared type
  \<open>ParsedAction[]\<close>. An action as a caller may pass it: the four collections may be
  absent (\<open>undefined\<close>). The other members are as declared; an absent one among them
  makes no read fail.
\<close>

record RawAction =
  raw_slug :: string
  raw_label :: string
  raw_description :: string
  raw_method :: Method
  raw_path :: string
  raw_pathParams :: "ParsedField list option"
  raw_queryParams :: "ParsedField list option"
  raw_bodySchema :: "ParsedField list option"
  raw_responseSchema :: "ParsedField list option"
  raw_tags :: "string list option"
  raw_deprecated :: "bool option"

text \<open>An action of the declared type as a caller passes it, and back where nothing is absent.\<close>

definition rawAction :: "ParsedAction \<Rightarrow> RawAction" where
  "rawAction a =
     \<lparr>raw_slug = slug a, raw_label = action_label a, raw_description = action_description a,
      raw_method = method a, raw_path = path a,
      raw_pathParams = Some (pathParams a), raw_queryParams = Some (queryParams a),
      raw_bodySchema = Some (bodySchema a), raw_responseSchema = Some (responseSchema a),
      raw_tags = tags a, raw_deprecated = deprecated a\<rparr>"

definition typedAction :: "RawAction \<Rightarrow> ParsedAction option" where
  "typedAction r =
     (case (raw_pathParams r, raw_queryParams r, raw_bodySchema r, raw_responseSchema r) of
        (Some ps, Some qs, Some bs, Some rs) \<Rightarrow>
          Some \<lparr>slug = raw_slug r, action_label = raw_label r,
                action_description = raw_description r, method = raw_method r,
                path = raw_path r, pathParams = ps, queryParams = qs, bodySchema = bs,
                responseSchema = rs, tags = raw_tags r, deprecated = raw_deprecated r\<rparr>
      | _ \<Rightarrow> None)"

text \<open>
  The exception of the diff engine: spreading or iterating \<open>undefined\<close>, or reading
  \<open>map\<close> of it, throws a \<open>TypeError\<close>. Nothing in the engine catches it.
\<close>

datatype diffError = TypeError

text \<open>
  \<open>compareEndpoints\<close> on such actions. The function reads all four collections of both
  actions, each in a statement that is not under a condition (lines 88 to 96, 166, 167,
  180 and 181), and it has no \<open>try\<close>: if one of the eight is absent the call throws and
  what it pushed before is lost with the caller's array; if none is, it is
  \<^const>\<open>compareEndpoints\<close>.
\<close>

definition compareEndpointsRaw ::
  "RawAction \<Rightarrow> RawAction \<Rightarrow> DiffChange list \<Rightarrow> diffError + DiffChange list" where
  "compareEndpointsRaw oldAction newAction changes0 =
     (case (typedAction oldAction, typedAction newAction) of
        (Some old, Some new) \<Rightarrow> Inr (compareEndpoints old new changes0)
      | _ \<Rightarrow> Inl TypeError)"

definition rawKey :: "RawAction \<Rightarrow> string" where
  "rawKey a = methodStr (raw_method a) @ '' '' @ raw_path a"

definition buildMapRaw :: "RawAction list \<Rightarrow> (string \<times> RawAction) list" where
  "buildMapRaw as = foldl (\<lambda>mp a. mapSet (rawKey a) a mp) [] as"

text \<open>
  \<open>diffSpecs\<close> on such actions: the same three loops. The first two read \<open>method\<close> and
  \<open>path\<close> only. An exception of \<open>compareEndpoints\<close> in the third ends the loop and the
  call: \<open>Inl\<close> is the exception leaving \<open>diffSpecs\<close>.
\<close>

definition diffSpecsRaw :: "RawAction list \<Rightarrow> RawAction list \<Rightarrow> diffError + DiffResult" where
  "diffSpecsRaw oldActions newActions =
    (let oldMap = buildMapRaw oldActions;
         newMap = buildMapRaw newActions;
         changes1 = foldl (\<lambda>cs (k, oldAction).
             if \<not> mapHas newMap k
             then cs @ [mkChange Breaking ''endpoint-removed''
                    (''Endpoint removed: '' @ methodStr (raw_method oldAction) @ '' ''
                       @ raw_path oldAction)
                    (raw_method oldAction) (raw_path oldAction)]
             else cs) [] oldMap;
         changes2 = foldl (\<lambda>cs (k, newAction).
             if \<not> mapHas oldMap k
             then cs @ [mkChange NonBreaking ''endpoint-added''
                    (''Endpoint added: '' @ methodStr (raw_method newAction) @ '' ''
                       @ raw_path newAction)
                    (raw_method newAction) (raw_path newAction)]
             else cs) changes1 newMap;
         changes3 = foldl (\<lambda>r (k, newAction).
             (case r of
                Inl e \<Rightarrow> Inl e
              | Inr cs \<Rightarrow>
                  (case mapGet oldMap k of
                     None \<Rightarrow> Inr cs
                   | Some oldAction \<Rightarrow> compareEndpointsRaw oldAction newAction cs)))
             (Inr changes2) newMap
     in case changes3 of
          Inl e \<Rightarrow> Inl e
        | Inr cs \<Rightarrow>
            Inr \<lparr>changes = cs,
                 breakingCount = length (filter (\<lambda>c. change_type c = Breaking) cs),
                 nonBreakingCount = length (filter (\<lambda>c. change_type c = NonBreaking) cs)\<rparr>)"

text \<open>
  Every action that \<open>diffSpecs\<close> compares, that is, every action of the new map whose key
  the old map has, and its counterpart there, has its four collections.
\<close>

definition comparedComplete :: "RawAction list \<Rightarrow> RawAction list \<Rightarrow> bool" where
  "comparedComplete oldActions newActions =
     list_all (\<lambda>(k, newAction).
        (case mapGet (buildMapRaw oldActions) k of
           None \<Rightarrow> True
         | Some oldAction \<Rightarrow> typedAction oldAction \<noteq> None \<and> typedAction newAction \<noteq> None))
       (buildMapRaw newActions)"

text \<open>\<open>GET /pets\<close> without the member \<open>queryParams\<close>.\<close>

definition petsNoQueryParams :: RawAction where
  "petsNoQueryParams =
     \<lparr>raw_slug = ''listpets'', raw_label = ''List pets'', raw_description = '''',
      raw_method = GET, raw_path = ''/pets'',
      raw_pathParams = Some [], raw_queryParams = None,
      raw_bodySchema = Some [], raw_responseSchema = Some [],
      raw_tags = None, raw_deprecated = None\<rparr>"

section \<open>The diff algorithm as the specification words it\<close>

text \<open>
  The definitions of this section follow the specification's text (section 4.4), step by
  step; the theorems compare them with \<^const>\<open>compareEndpoints\<close> and
  \<^const>\<open>diffSpecs\<close> above. New and old parameters are taken query parameters first, then
  path parameters.

  Step 4a. For each new parameter whose key is not in the set of old required parameter
  keys, and which is required in new: breaking, required-param-added.
\<close>

definition requiredParamAdded :: "ParsedAction \<Rightarrow> ParsedAction \<Rightarrow> DiffChange list" where
  "requiredParamAdded oldAction newAction =
     map (\<lambda>q. mkChange Breaking ''required-param-added''
            (''Required parameter added: '' @ dquote @ key q @ dquote @ '' on ''
               @ methodStr (method newAction) @ '' '' @ path newAction)
            (method newAction) (path newAction))
       (filter (\<lambda>q. required q
                 \<and> key q \<notin> set (map key (filter required (queryParams oldAction @ pathParams oldAction))))
          (queryParams newAction @ pathParams newAction))"

text \<open>
  Step 4b. For each new parameter not present at all among old parameter keys, and not
  required: non-breaking, optional-param-added.
\<close>

definition optionalParamAdded :: "ParsedAction \<Rightarrow> ParsedAction \<Rightarrow> DiffChange list" where
  "optionalParamAdded oldAction newAction =
     map (\<lambda>q. mkChange NonBreaking ''optional-param-added''
            (''Optional parameter added: '' @ dquote @ key q @ dquote @ '' on ''
               @ methodStr (method newAction) @ '' '' @ path newAction)
            (method newAction) (path newAction))
       (filter (\<lambda>q. \<not> required q
                 \<and> key q \<notin> set (map key (queryParams oldAction @ pathParams oldAction)))
          (queryParams newAction @ pathParams newAction))"

text \<open>
  Step 4c. For each parameter key present among old parameters but absent from new
  parameter keys: breaking, param-removed. The keys are taken once each, in the order of
  their first occurrence among the old parameters.
\<close>

definition paramRemoved :: "ParsedAction \<Rightarrow> ParsedAction \<Rightarrow> DiffChange list" where
  "paramRemoved oldAction newAction =
     map (\<lambda>k. mkChange Breaking ''param-removed''
            (''Parameter removed: '' @ dquote @ k @ dquote @ '' from ''
               @ methodStr (method newAction) @ '' '' @ path newAction)
            (method newAction) (path newAction))
       (filter (\<lambda>k. k \<notin> set (map key (queryParams newAction @ pathParams newAction)))
          (newSet (map key (queryParams oldAction @ pathParams oldAction))))"

text \<open>
  Step 4d. For each new parameter whose key is the key of an old parameter with a differing
  declared type: breaking, param-type-changed. The old parameter of a key is the one the
  lookup map of the old parameters holds for it.
\<close>

definition paramTypeChanged :: "ParsedAction \<Rightarrow> ParsedAction \<Rightarrow> DiffChange list" where
  "paramTypeChanged oldAction newAction =
     concat (map (\<lambda>q.
        (case mapGet (foldl (\<lambda>mp r. mapSet (key r) r mp) []
                        (queryParams oldAction @ pathParams oldAction)) (key q) of
           None \<Rightarrow> []
         | Some old \<Rightarrow>
             if ftype old \<noteq> ftype q
             then [mkChange Breaking ''param-type-changed''
                     (''Parameter type changed: '' @ dquote @ key q @ dquote @ '' ''
                        @ fieldTypeStr (ftype old) @ '' -> '' @ fieldTypeStr (ftype q) @ '' on ''
                        @ methodStr (method newAction) @ '' '' @ path newAction)
                     (method newAction) (path newAction)]
             else []))
        (queryParams newAction @ pathParams newAction))"

text \<open>
  Step 4e. For each new request-body field that is required and whose key was absent from
  the old body's top-level field keys: breaking, required-body-field-added.
\<close>

definition requiredBodyFieldAdded :: "ParsedAction \<Rightarrow> ParsedAction \<Rightarrow> DiffChange list" where
  "requiredBodyFieldAdded oldAction newAction =
     map (\<lambda>f. mkChange Breaking ''required-body-field-added''
            (''Required body field added: '' @ dquote @ key f @ dquote @ '' on ''
               @ methodStr (method newAction) @ '' '' @ path newAction)
            (method newAction) (path newAction))
       (filter (\<lambda>f. required f \<and> key f \<notin> set (map key (bodySchema oldAction)))
          (bodySchema newAction))"

text \<open>
  Step 4f. For each old response field whose key is absent from the new response's
  top-level field keys: breaking, response-field-removed.
\<close>

definition responseFieldRemoved :: "ParsedAction \<Rightarrow> ParsedAction \<Rightarrow> DiffChange list" where
  "responseFieldRemoved oldAction newAction =
     map (\<lambda>f. mkChange Breaking ''response-field-removed''
            (''Response field removed: '' @ dquote @ key f @ dquote @ '' from ''
               @ methodStr (method newAction) @ '' '' @ path newAction)
            (method newAction) (path newAction))
       (filter (\<lambda>f. key f \<notin> set (map key (responseSchema newAction)))
          (responseSchema oldAction))"

text \<open>
  Step 4g. If both old and new descriptions are non-empty and differ: non-breaking,
  description-changed.
\<close>

definition descriptionChanged :: "ParsedAction \<Rightarrow> ParsedAction \<Rightarrow> DiffChange list" where
  "descriptionChanged oldAction newAction =
     (if action_description oldAction \<noteq> action_description newAction
         \<and> action_description oldAction \<noteq> ''''
         \<and> action_description newAction \<noteq> ''''
      then [mkChange NonBreaking ''description-changed''
              (''Description changed on '' @ methodStr (method newAction) @ '' '' @ path newAction)
              (method newAction) (path newAction)]
      else [])"

text \<open>Step 2. For every key present in old but absent in new: breaking, endpoint-removed.\<close>

definition endpointsRemoved :: "ParsedAction list \<Rightarrow> ParsedAction list \<Rightarrow> DiffChange list" where
  "endpointsRemoved oldActions newActions =
     map (\<lambda>(k, a). mkChange Breaking ''endpoint-removed''
            (''Endpoint removed: '' @ methodStr (method a) @ '' '' @ path a) (method a) (path a))
       (filter (\<lambda>(k, a). \<not> mapHas (buildMap newActions) k) (buildMap oldActions))"

text \<open>Step 3. For every key present in new but absent in old: non-breaking, endpoint-added.\<close>

definition endpointsAdded :: "ParsedAction list \<Rightarrow> ParsedAction list \<Rightarrow> DiffChange list" where
  "endpointsAdded oldActions newActions =
     map (\<lambda>(k, a). mkChange NonBreaking ''endpoint-added''
            (''Endpoint added: '' @ methodStr (method a) @ '' '' @ path a) (method a) (path a))
       (filter (\<lambda>(k, a). \<not> mapHas (buildMap oldActions) k) (buildMap newActions))"

text \<open>
  Step 4. For every key present in both, in the order of the new map: the changes of the
  per-action comparison of the old action and the new action of that key, one list per key.
\<close>

definition endpointComparisons :: "ParsedAction list \<Rightarrow> ParsedAction list \<Rightarrow> DiffChange list list" where
  "endpointComparisons oldActions newActions =
     concat (map (\<lambda>(k, newAction).
        (case mapGet (buildMap oldActions) k of
           None \<Rightarrow> []
         | Some oldAction \<Rightarrow> [compareEndpoints oldAction newAction []]))
       (buildMap newActions))"

text \<open>
  The place of a category in the sub-order of step 4 (a to g are 1 to 7); a category that
  the per-action comparison does not emit has place 0.
\<close>

definition subOrder :: "string \<Rightarrow> nat" where
  "subOrder c =
     (if c = ''required-param-added'' then 1
      else if c = ''optional-param-added'' then 2
      else if c = ''param-removed'' then 3
      else if c = ''param-type-changed'' then 4
      else if c = ''required-body-field-added'' then 5
      else if c = ''response-field-removed'' then 6
      else if c = ''description-changed'' then 7
      else 0)"

text \<open>
  The last action of a list that has the key of \<open>a\<close>, and \<open>a\<close> itself when the list has
  none: the entry the specification calls authoritative for that key.
\<close>

definition lastSeen :: "ParsedAction list \<Rightarrow> ParsedAction \<Rightarrow> ParsedAction" where
  "lastSeen actions a = foldl (\<lambda>r b. if actionKey b = actionKey a then b else r) a actions"

text \<open>
  Within one action, parameters of one key have one type: the condition under which the
  map of old parameters, keyed by name, cannot confuse two parameters of different types.
\<close>

definition sameKeySameType :: "ParsedAction \<Rightarrow> bool" where
  "sameKeySameType a =
     list_all (\<lambda>q. list_all (\<lambda>r. key q \<noteq> key r \<or> ftype q = ftype r)
                        (queryParams a @ pathParams a))
       (queryParams a @ pathParams a)"

section \<open>Sample inputs\<close>

text \<open>
  A parameter field and an action with the given members and nothing else, as the parser
  builds them for an operation without summary, description, body or response schema.
\<close>

definition sampleParam :: "string \<Rightarrow> FieldType \<Rightarrow> bool \<Rightarrow> ParsedField" where
  "sampleParam k t r = ParsedField k k t r None None None None None None None"

definition sampleAction ::
  "Method \<Rightarrow> string \<Rightarrow> ParsedField list \<Rightarrow> ParsedField list \<Rightarrow> ParsedAction" where
  "sampleAction m p qs ps =
     \<lparr>slug = '''', action_label = '''', action_description = '''', method = m, path = p,
      pathParams = ps, queryParams = qs, bodySchema = [], responseSchema = [],
      tags = None, deprecated = None\<rparr>"

text \<open>
  \<open>GET /items/{id}\<close> with a path parameter \<open>id\<close> of type number and a query parameter
  \<open>id\<close> of type string: OpenAPI identifies a parameter by name and location, so one
  operation may declare both.
\<close>

definition sameNameAction :: ParsedAction where
  "sameNameAction = sampleAction GET ''/items/{id}''
     [sampleParam ''id'' TString False] [sampleParam ''id'' TNumber True]"

text \<open>
  \<open>GET /pets\<close> without parameters, with an optional and with a required query parameter
  \<open>status\<close>.
\<close>

definition petsPlain :: ParsedAction where
  "petsPlain = sampleAction GET ''/pets'' [] []"

definition petsOptionalStatus :: ParsedAction where
  "petsOptionalStatus = sampleAction GET ''/pets'' [sampleParam ''status'' TString False] []"

definition petsRequiredStatus :: ParsedAction where
  "petsRequiredStatus = sampleAction GET ''/pets'' [sampleParam ''status'' TString True] []"

text \<open>
  Two versions of a small pet store: the second drops \<open>DELETE /pets/{petId}\<close>, adds
  \<open>POST /pets\<close>, and on \<open>GET /pets\<close> changes the type of \<open>limit\<close>, makes \<open>status\<close>
  required and adds the optional \<open>species\<close>.
\<close>

definition petsBefore :: "ParsedAction list" where
  "petsBefore =
     [sampleAction DELETE ''/pets/{petId}'' [] [sampleParam ''petId'' TString True],
      sampleAction GET ''/pets''
        [sampleParam ''limit'' TNumber False, sampleParam ''status'' TString False] []]"

definition petsAfter :: "ParsedAction list" where
  "petsAfter =
     [sampleAction GET ''/pets''
        [sampleParam ''limit'' TString False, sampleParam ''status'' TString True,
         sampleParam ''species'' TString False] [],
      sampleAction POST ''/pets'' [] []]"

section \<open>Parser (src/lib/parser.ts)\<close>

subsection \<open>Schema conversion\<close>

text \<open>
  \<open>OpenAPIV3.SchemaObject | OpenAPIV2.SchemaObject\<close>, with the members the parser reads.
  \<open>schema_ref\<close> is the member \<open>$ref\<close>: the test \<open>'$ref' in s\<close> is
  \<open>schema_ref s \<noteq> None\<close>. \<open>schema_properties\<close> is the list of the entries of
  \<open>properties\<close> in \<open>Object.entries\<close> order. An object, empty or not, is truthy, so
  \<open>schema.properties\<close> and \<open>schema.items\<close> as conditions are \<open>\<noteq> None\<close>.
\<close>

datatype SchemaObject = SchemaObject
  (schema_ref: "string option")
  (schema_type: "string option")
  (schema_properties: "(string \<times> SchemaObject) list option")
  (schema_required: "string list option")
  (schema_items: "SchemaObject option")
  (schema_description: "string option")
  (schema_enum: "string list option")
  (schema_format: "string option")
  (schema_default: "json option")
  (schema_example: "json option")

fun schemaTypeToFieldType :: "string option \<Rightarrow> FieldType" where
  "schemaTypeToFieldType t =
     (if t = Some ''string'' then TString
      else if t = Some ''number'' \<or> t = Some ''integer'' then TNumber
      else if t = Some ''boolean'' then TBoolean
      else if t = Some ''array'' then TArray
      else if t = Some ''object'' then TObject
      else TString)"

text \<open>
  \<open>toTitleCase\<close>: \<open>str.replace(/[-_]/g, ' ').replace(/\b\w/g, c => c.toUpperCase())\<close>.
  Without the unicode flag \<open>\w\<close> is \<open>[A-Za-z0-9_]\<close>, and \<open>\b\w\<close> matches a word
  character that stands first or after a character that is not one.
\<close>

definition isWordChar :: "char \<Rightarrow> bool" where
  "isWordChar c =
     (c \<in> set (''abcdefghijklmnopqrstuvwxyz'' @ ''ABCDEFGHIJKLMNOPQRSTUVWXYZ''
                @ ''0123456789'' @ ''_''))"

definition toUpperCase :: "char \<Rightarrow> char" where
  "toUpperCase c =
     (case map_of (zip ''abcdefghijklmnopqrstuvwxyz'' ''ABCDEFGHIJKLMNOPQRSTUVWXYZ'') c of
        None \<Rightarrow> c
      | Some u \<Rightarrow> u)"

fun upcaseWordStarts :: "bool \<Rightarrow> string \<Rightarrow> string" where
  "upcaseWordStarts prev [] = []"
| "upcaseWordStarts prev (c # cs) =
     (if isWordChar c \<and> \<not> prev then toUpperCase c else c) # upcaseWordStarts (isWordChar c) cs"

definition toTitleCase :: "string \<Rightarrow> string" where
  "toTitleCase str =
     upcaseWordStarts False
       (map (\<lambda>c. if c = CHR ''-'' \<or> c = CHR ''_'' then CHR '' '' else c) str)"

text \<open>
  \<open>schemaToFields(schema, warnings, depth)\<close>. Every caller passes depth 0 and the
  function itself passes \<open>depth\<close> or \<open>depth + 1\<close>, so the depth is a natural number. The
  \<open>catch\<close> clause runs only when a member read by the \<open>try\<close> block is not of its declared
  type (a property that is not an object, say). On a \<^typ>\<open>SchemaObject\<close> no such read
  occurs, \<open>warnings\<close> is returned as it came, and the model leaves it out.
  The loop over \<open>Object.entries(schema.properties)\<close> skips a property with \<open>$ref\<close> and
  pushes one field for every other.
\<close>

function schemaToFields :: "SchemaObject \<Rightarrow> nat \<Rightarrow> ParsedField list" where
  "schemaToFields (SchemaObject rf ty props req its de en fo df ex) depth =
     (if depth > 2 then []
      else if ty = Some ''object'' \<and> props \<noteq> None then
        concat (map (\<lambda>(k, prop).
          if schema_ref prop \<noteq> None then []
          else [ParsedField k (toTitleCase k) (schemaTypeToFieldType (schema_type prop))
                  (k \<in> set (case req of None \<Rightarrow> [] | Some r \<Rightarrow> r))
                  (schema_description prop) (schema_enum prop) (schema_format prop)
                  (schema_default prop) (schema_example prop)
                  (if schema_type prop = Some ''object'' \<and> schema_properties prop \<noteq> None
                   then Some (schemaToFields prop (depth + 1)) else None)
                  (case schema_items prop of
                     None \<Rightarrow> None
                   | Some itemSchema \<Rightarrow>
                       if schema_type prop = Some ''array'' \<and> schema_ref itemSchema = None
                       then Some (ParsedField ''item'' ''Item''
                              (schemaTypeToFieldType (schema_type itemSchema)) False
                              (schema_description itemSchema) (schema_enum itemSchema)
                              (schema_format itemSchema) None None
                              (if schema_type itemSchema = Some ''object''
                                  \<and> schema_properties itemSchema \<noteq> None
                               then Some (schemaToFields itemSchema (depth + 1)) else None)
                              None)
                       else None)])
          (case props of None \<Rightarrow> [] | Some ps \<Rightarrow> ps))
      else (case its of
              None \<Rightarrow> []
            | Some itemSchema \<Rightarrow>
                if ty = Some ''array'' \<and> schema_ref itemSchema = None
                then schemaToFields itemSchema depth
                else []))"
  by pat_completeness auto
termination
  by (relation "measures [\<lambda>(s, d). 3 - d, \<lambda>(s, d). size s]") auto

text \<open>All keys of a field: its own, those of its nested fields and those of its element field.\<close>

fun fieldKeys :: "ParsedField \<Rightarrow> string list" where
  "fieldKeys (ParsedField k l t r de en fo df ex props its) =
     k # (case props of None \<Rightarrow> [] | Some ps \<Rightarrow> concat (map fieldKeys ps))
       @ (case its of None \<Rightarrow> [] | Some it \<Rightarrow> fieldKeys it)"

text \<open>
  All element fields (the values of \<open>items\<close>) of a field: its own and, at any depth, those
  of its nested fields and of its element field.
\<close>

fun itemFields :: "ParsedField \<Rightarrow> ParsedField list" where
  "itemFields (ParsedField k l t r de en fo df ex props its) =
     (case its of None \<Rightarrow> [] | Some it \<Rightarrow> it # itemFields it)
       @ (case props of None \<Rightarrow> [] | Some ps \<Rightarrow> concat (map itemFields ps))"

text \<open>Schemas and fields with a type, or a type and properties, and no other member.\<close>

definition typeSchema :: "string \<Rightarrow> SchemaObject" where
  "typeSchema t = SchemaObject None (Some t) None None None None None None None None"

definition objectSchema :: "(string \<times> SchemaObject) list \<Rightarrow> SchemaObject" where
  "objectSchema ps =
     SchemaObject None (Some ''object'') (Some ps) None None None None None None None"

definition plainField ::
  "string \<Rightarrow> string \<Rightarrow> FieldType \<Rightarrow> ParsedField list option \<Rightarrow> ParsedField" where
  "plainField k l t props = ParsedField k l t False None None None None None props None"

text \<open>
  The literal schema of the specification's depth-bound property,
  \<open>{type:object, properties:{a:{type:object, properties:{b:{type:object,
  properties:{c:{type:string}}}}}}}\<close>, and the same with \<open>c\<close> an object of one
  string property \<open>d\<close>.
\<close>

definition nestedLiteral :: SchemaObject where
  "nestedLiteral =
     objectSchema [(''a'', objectSchema [(''b'', objectSchema [(''c'', typeSchema ''string'')])])]"

definition deeperLiteral :: SchemaObject where
  "deeperLiteral =
     objectSchema [(''a'', objectSchema [(''b'', objectSchema [(''c'',
       objectSchema [(''d'', typeSchema ''string'')])])])]"

text \<open>
  \<open>{type:object, required:[tags], properties:{tags:{type:array, items:{type:object,
  properties:{name:{type:string}, aliases:{type:array, items:{type:string}}}}}}}\<close>.
\<close>

definition tagsSchema :: SchemaObject where
  "tagsSchema =
     SchemaObject None (Some ''object'')
       (Some [(''tags'',
          SchemaObject None (Some ''array'') None None
            (Some (objectSchema
               [(''name'', typeSchema ''string''),
                (''aliases'',
                   SchemaObject None (Some ''array'') None None (Some (typeSchema ''string''))
                     None None None None None)]))
            None None None None None)])
       (Some [''tags'']) None None None None None None"

subsection \<open>Authentication\<close>

text \<open>
  \<open>interface ParsedAuth\<close> with its three configurations. \<open>type\<close> is \<open>auth_type\<close>, and
  \<^term>\<open>config a = None\<close> is \<open>config: null\<close>.
\<close>

datatype AuthType = ApiKey | Bearer | OAuth2 | NoAuth

datatype ApiKeyIn = Header | Query

datatype AuthConfig =
    ApiKeyAuthConfig string ApiKeyIn
  | BearerAuthConfig string
  | OAuth2AuthConfig string string "(string \<times> string) list"

record ParsedAuth =
  auth_type :: AuthType
  config :: "AuthConfig option"

definition noAuth :: ParsedAuth where
  "noAuth = \<lparr>auth_type = NoAuth, config = None\<rparr>"

text \<open>
  A string as a condition, and \<open>a || b\<close> on strings that may be \<open>undefined\<close>: the empty
  string and \<open>undefined\<close> are falsy.
\<close>

definition truthy :: "string option \<Rightarrow> bool" where
  "truthy s = (case s of None \<Rightarrow> False | Some v \<Rightarrow> v \<noteq> [])"

fun firstTruthy :: "string option list \<Rightarrow> string \<Rightarrow> string" where
  "firstTruthy [] d = d"
| "firstTruthy (s # ss) d = (case s of None \<Rightarrow> firstTruthy ss d
                             | Some v \<Rightarrow> if v \<noteq> [] then v else firstTruthy ss d)"

text \<open>\<open>a || b || {}\<close> on objects that may be \<open>undefined\<close>: every object is truthy.\<close>

fun firstDefined :: "'a option list \<Rightarrow> 'a \<Rightarrow> 'a" where
  "firstDefined [] d = d"
| "firstDefined (s # ss) d = (case s of None \<Rightarrow> firstDefined ss d | Some v \<Rightarrow> v)"

text \<open>
  The test and the result of both extractors for the API-key scheme they found, given its
  \<open>name\<close> and \<open>in\<close>: \<open>if (typed.name && (inValue === 'header' || inValue === 'query'))
  return {type: 'apiKey', config: {name: typed.name, in: inValue}}\<close>. \<open>None\<close> is falling
  out of the \<open>if\<close>.
\<close>

definition apiKeyDescriptor :: "string option \<Rightarrow> string option \<Rightarrow> ParsedAuth option" where
  "apiKeyDescriptor nm inValue =
     (case nm of
        None \<Rightarrow> None
      | Some n \<Rightarrow>
          if n \<noteq> [] \<and> inValue = Some ''header''
          then Some \<lparr>auth_type = ApiKey, config = Some (ApiKeyAuthConfig n Header)\<rparr>
          else if n \<noteq> [] \<and> inValue = Some ''query''
          then Some \<lparr>auth_type = ApiKey, config = Some (ApiKeyAuthConfig n Query)\<rparr>
          else None)"

text \<open>
  One OAuth2 flow object and the \<open>flows\<close> object of an OpenAPI 3 OAuth2 scheme. Which of
  the URLs a flow has depends on its kind, so both are optional.
\<close>

record OAuthFlow =
  authorizationUrl :: "string option"
  tokenUrl :: "string option"
  scopes :: "(string \<times> string) list option"

record OAuthFlows =
  implicit :: "OAuthFlow option"
  password :: "OAuthFlow option"
  clientCredentials :: "OAuthFlow option"
  authorizationCode :: "OAuthFlow option"

text \<open>
  \<open>OpenAPIV3.SecuritySchemeObject | OpenAPIV3.ReferenceObject\<close>, one constructor for each
  member of the union: a reference (\<open>$ref\<close>), \<open>type: 'http'\<close> with its \<open>scheme\<close>,
  \<open>type: 'apiKey'\<close> with its \<open>name\<close> and \<open>in\<close>, \<open>type: 'oauth2'\<close> with its \<open>flows\<close>, and
  \<open>type: 'openIdConnect'\<close> with its URL. The extractor tests \<open>name\<close> and \<open>in\<close> of an
  API-key scheme before it uses them, so they are optional here; it reads \<open>flows\<close>, which
  the type declares as required, without a test.
\<close>

datatype SecuritySchemeV3 =
    ReferenceObject string
  | HttpSecurityScheme string
  | ApiKeySecurityScheme "string option" "string option"
  | OAuth2SecurityScheme OAuthFlows
  | OpenIdSecurityScheme string

fun isSecurityScheme :: "SecuritySchemeV3 \<Rightarrow> bool" where
  "isSecurityScheme (ReferenceObject r) = False"
| "isSecurityScheme s = True"

fun isApiKeyV3 :: "SecuritySchemeV3 \<Rightarrow> bool" where
  "isApiKeyV3 (ApiKeySecurityScheme nm inValue) = True"
| "isApiKeyV3 s = False"

fun isBearerV3 :: "SecuritySchemeV3 \<Rightarrow> bool" where
  "isBearerV3 (HttpSecurityScheme sch) = (sch = ''bearer'')"
| "isBearerV3 s = False"

fun isOAuth2V3 :: "SecuritySchemeV3 \<Rightarrow> bool" where
  "isOAuth2V3 (OAuth2SecurityScheme flows) = True"
| "isOAuth2V3 s = False"

text \<open>
  \<open>extractAuthOpenAPI3(schemes)\<close>. \<open>schemes\<close> is the list of the entries of
  \<open>components.securitySchemes\<close> in \<open>Object.entries\<close> order, \<open>None\<close> when the document has
  none. \<open>find\<close> returns the first entry that passes the test. Each \<open>if\<close> either returns
  or falls through to the next.
\<close>

definition extractAuthOpenAPI3 :: "(string \<times> SecuritySchemeV3) list option \<Rightarrow> ParsedAuth" where
  "extractAuthOpenAPI3 schemes =
     (case schemes of
        None \<Rightarrow> noAuth
      | Some ss \<Rightarrow>
          if length ss = 0 then noAuth
          else
            (let entries = filter (\<lambda>(n, s). isSecurityScheme s) ss;
                 apiKeyScheme = find (\<lambda>(n, s). isApiKeyV3 s) entries;
                 bearerScheme = find (\<lambda>(n, s). isBearerV3 s) entries;
                 oauth2Scheme = find (\<lambda>(n, s). isOAuth2V3 s) entries
             in case (case apiKeyScheme of
                        Some (n, ApiKeySecurityScheme nm inValue) \<Rightarrow> apiKeyDescriptor nm inValue
                      | _ \<Rightarrow> None) of
                  Some auth \<Rightarrow> auth
                | None \<Rightarrow>
                   (case bearerScheme of
                      Some (n, HttpSecurityScheme sch) \<Rightarrow>
                        \<lparr>auth_type = Bearer,
                         config = Some (BearerAuthConfig (firstTruthy [Some sch] ''bearer''))\<rparr>
                    | _ \<Rightarrow>
                       (case oauth2Scheme of
                          Some (n, OAuth2SecurityScheme flows) \<Rightarrow>
                            (let authCode = authorizationCode flows;
                                 impl = implicit flows;
                                 pass = password flows;
                                 clientCred = clientCredentials flows
                             in \<lparr>auth_type = OAuth2,
                                 config = Some (OAuth2AuthConfig
                                   (firstTruthy [Option.bind authCode authorizationUrl,
                                                 Option.bind impl authorizationUrl] '''')
                                   (firstTruthy [Option.bind authCode tokenUrl,
                                                 Option.bind pass tokenUrl,
                                                 Option.bind clientCred tokenUrl] '''')
                                   (firstDefined [Option.bind authCode scopes,
                                                  Option.bind impl scopes,
                                                  Option.bind pass scopes,
                                                  Option.bind clientCred scopes] []))\<rparr>)
                        | _ \<Rightarrow> noAuth))))"

text \<open>
  \<open>OpenAPIV2.SecuritySchemeObject\<close>: \<open>type: 'basic'\<close>, \<open>type: 'apiKey'\<close> with its \<open>name\<close>
  and \<open>in\<close>, and \<open>type: 'oauth2'\<close> with the \<open>authorizationUrl\<close>, \<open>tokenUrl\<close> and \<open>scopes\<close>
  of its one flow.
\<close>

datatype SecuritySchemeV2 =
    SecuritySchemeBasic
  | SecuritySchemeApiKey "string option" "string option"
  | SecuritySchemeOauth2 "string option" "string option" "(string \<times> string) list option"

fun isApiKeyV2 :: "SecuritySchemeV2 \<Rightarrow> bool" where
  "isApiKeyV2 (SecuritySchemeApiKey nm inValue) = True"
| "isApiKeyV2 s = False"

fun isBasicV2 :: "SecuritySchemeV2 \<Rightarrow> bool" where
  "isBasicV2 SecuritySchemeBasic = True"
| "isBasicV2 s = False"

fun isOAuth2V2 :: "SecuritySchemeV2 \<Rightarrow> bool" where
  "isOAuth2V2 (SecuritySchemeOauth2 au tu sc) = True"
| "isOAuth2V2 s = False"

text \<open>\<open>extractAuthSwagger2(definitions)\<close>, on the entries of \<open>securityDefinitions\<close>.\<close>

definition extractAuthSwagger2 :: "(string \<times> SecuritySchemeV2) list option \<Rightarrow> ParsedAuth" where
  "extractAuthSwagger2 definitions =
     (case definitions of
        None \<Rightarrow> noAuth
      | Some entries \<Rightarrow>
          if length entries = 0 then noAuth
          else
            (let apiKeyScheme = find (\<lambda>(n, s). isApiKeyV2 s) entries;
                 basicScheme = find (\<lambda>(n, s). isBasicV2 s) entries;
                 oauth2Scheme = find (\<lambda>(n, s). isOAuth2V2 s) entries
             in case (case apiKeyScheme of
                        Some (n, SecuritySchemeApiKey nm inValue) \<Rightarrow> apiKeyDescriptor nm inValue
                      | _ \<Rightarrow> None) of
                  Some auth \<Rightarrow> auth
                | None \<Rightarrow>
                   (case basicScheme of
                      Some b \<Rightarrow> \<lparr>auth_type = Bearer, config = Some (BearerAuthConfig ''basic'')\<rparr>
                    | None \<Rightarrow>
                       (case oauth2Scheme of
                          Some (n, SecuritySchemeOauth2 au tu sc) \<Rightarrow>
                            \<lparr>auth_type = OAuth2,
                             config = Some (OAuth2AuthConfig (firstTruthy [au] '''')
                                (firstTruthy [tu] '''') (firstDefined [sc] []))\<rparr>
                        | _ \<Rightarrow> noAuth))))"

text \<open>
  The priority order as the specification words it: API-key scheme first, then
  bearer/basic, then OAuth2; first match wins; none otherwise. The arguments say whether
  a scheme of the kind can be chosen.
\<close>

definition authPriority :: "bool \<Rightarrow> bool \<Rightarrow> bool \<Rightarrow> AuthType" where
  "authPriority apiKey bearer oauth2 =
     (if apiKey then ApiKey else if bearer then Bearer else if oauth2 then OAuth2 else NoAuth)"

text \<open>
  The \<open>name\<close> and \<open>in\<close> of the first API-key scheme of a collection, and whether an
  API-key scheme with that name and location is usable: it has a non-empty name and its
  location is \<open>header\<close> or \<open>query\<close>.
\<close>

fun firstApiKeyV3 ::
  "(string \<times> SecuritySchemeV3) list \<Rightarrow> (string option \<times> string option) option" where
  "firstApiKeyV3 [] = None"
| "firstApiKeyV3 ((n, ApiKeySecurityScheme nm inValue) # ss) = Some (nm, inValue)"
| "firstApiKeyV3 (e # ss) = firstApiKeyV3 ss"

fun firstApiKeyV2 ::
  "(string \<times> SecuritySchemeV2) list \<Rightarrow> (string option \<times> string option) option" where
  "firstApiKeyV2 [] = None"
| "firstApiKeyV2 ((n, SecuritySchemeApiKey nm inValue) # ss) = Some (nm, inValue)"
| "firstApiKeyV2 (e # ss) = firstApiKeyV2 ss"

definition usableApiKey :: "(string option \<times> string option) option \<Rightarrow> bool" where
  "usableApiKey k =
     (case k of
        None \<Rightarrow> False
      | Some (nm, inValue) \<Rightarrow>
          truthy nm \<and> (inValue = Some ''header'' \<or> inValue = Some ''query''))"

text \<open>
  An OpenAPI 3 document's schemes with an API key in a cookie, which that dialect allows,
  and a bearer scheme; and the same with the API key in a header.
\<close>

definition cookieAndBearer :: "(string \<times> SecuritySchemeV3) list" where
  "cookieAndBearer =
     [(''cookieAuth'', ApiKeySecurityScheme (Some ''SESSION'') (Some ''cookie'')),
      (''bearerAuth'', HttpSecurityScheme ''bearer'')]"

definition headerAndBearer :: "(string \<times> SecuritySchemeV3) list" where
  "headerAndBearer =
     [(''bearerAuth'', HttpSecurityScheme ''bearer''),
      (''keyAuth'', ApiKeySecurityScheme (Some ''X-API-Key'') (Some ''header''))]"

text \<open>A Swagger 2 document's definitions: an API key without a name, basic and OAuth2.\<close>

definition namelessAndBasic :: "(string \<times> SecuritySchemeV2) list" where
  "namelessAndBasic =
     [(''oauth'', SecuritySchemeOauth2 (Some ''https://example.com/auth'') None None),
      (''key'', SecuritySchemeApiKey (Some '''') (Some ''query'')),
      (''basic'', SecuritySchemeBasic)]"

text \<open>
  What \<open>extractAuthOpenAPI3\<close> and \<open>extractAuthSwagger2\<close> return once the API-key scheme
  has not been returned: the bearer (basic) check, then OAuth2, then none, on the entries
  the extractor searches.
\<close>

definition afterApiKeyV3 :: "(string \<times> SecuritySchemeV3) list \<Rightarrow> ParsedAuth" where
  "afterApiKeyV3 entries =
     (case find (\<lambda>(n, s). isBearerV3 s) entries of
        Some (n, HttpSecurityScheme sch) \<Rightarrow>
          \<lparr>auth_type = Bearer,
           config = Some (BearerAuthConfig (firstTruthy [Some sch] ''bearer''))\<rparr>
      | _ \<Rightarrow>
         (case find (\<lambda>(n, s). isOAuth2V3 s) entries of
            Some (n, OAuth2SecurityScheme flows) \<Rightarrow>
              (let authCode = authorizationCode flows;
                   impl = implicit flows;
                   pass = password flows;
                   clientCred = clientCredentials flows
               in \<lparr>auth_type = OAuth2,
                   config = Some (OAuth2AuthConfig
                     (firstTruthy [Option.bind authCode authorizationUrl,
                                   Option.bind impl authorizationUrl] '''')
                     (firstTruthy [Option.bind authCode tokenUrl,
                                   Option.bind pass tokenUrl,
                                   Option.bind clientCred tokenUrl] '''')
                     (firstDefined [Option.bind authCode scopes,
                                    Option.bind impl scopes,
                                    Option.bind pass scopes,
                                    Option.bind clientCred scopes] []))\<rparr>)
          | _ \<Rightarrow> noAuth))"

definition afterApiKeyV2 :: "(string \<times> SecuritySchemeV2) list \<Rightarrow> ParsedAuth" where
  "afterApiKeyV2 entries =
     (case find (\<lambda>(n, s). isBasicV2 s) entries of
        Some b \<Rightarrow> \<lparr>auth_type = Bearer, config = Some (BearerAuthConfig ''basic'')\<rparr>
      | None \<Rightarrow>
         (case find (\<lambda>(n, s). isOAuth2V2 s) entries of
            Some (n, SecuritySchemeOauth2 au tu sc) \<Rightarrow>
              \<lparr>auth_type = OAuth2,
               config = Some (OAuth2AuthConfig (firstTruthy [au] '''')
                  (firstTruthy [tu] '''') (firstDefined [sc] []))\<rparr>
          | _ \<Rightarrow> noAuth))"

text \<open>A Swagger 2 document's definitions: basic and an API key in the query.\<close>

definition basicAndQueryKey :: "(string \<times> SecuritySchemeV2) list" where
  "basicAndQueryKey =
     [(''basic'', SecuritySchemeBasic),
      (''key'', SecuritySchemeApiKey (Some ''api_key'') (Some ''query''))]"

subsection \<open>Dialect detection and \<open>parseSpec\<close>\<close>

text \<open>
  \<open>interface ParsedAPI\<close> and \<open>type ParseResult = ParseSuccess | ParseFailure\<close>. The
  members \<open>name\<close> and \<open>description\<close> are \<open>api_name\<close> and \<open>api_description\<close>; a failure holds
  \<open>error\<close> and the optional \<open>details\<close>.
\<close>

record Contact =
  contact_name :: "string option"
  contact_email :: "string option"
  contact_url :: "string option"

record ParsedAPI =
  api_name :: string
  api_description :: string
  baseUrl :: string
  auth :: ParsedAuth
  actions :: "ParsedAction list"
  warnings :: "string list"
  version :: "string option"
  provider :: "string option"
  termsOfService :: "string option"
  contact :: "Contact option"

datatype ParseResult =
    ParseSuccess ParsedAPI
  | ParseFailure string "string option"

fun success :: "ParseResult \<Rightarrow> bool" where
  "success (ParseSuccess api) = True"
| "success (ParseFailure err details) = False"

text \<open>
  A thrown value is an \<open>Error\<close> with its message or something else;
  \<open>error instanceof Error ? error.message : d\<close> is \<open>messageOr error d\<close>.
\<close>

datatype thrown = ErrorObject string | OtherValue

fun messageOr :: "thrown \<Rightarrow> string \<Rightarrow> string" where
  "messageOr (ErrorObject msg) d = msg"
| "messageOr OtherValue d = d"

text \<open>\<open>msg.includes(sub)\<close>, here \<open>stringIncludes msg sub\<close>: \<open>sub\<close> occurs in \<open>msg\<close>.\<close>

fun stringIncludes :: "string \<Rightarrow> string \<Rightarrow> bool" where
  "stringIncludes [] sub = (sub = [])"
| "stringIncludes (c # cs) sub = (prefix sub (c # cs) \<or> stringIncludes cs sub)"

text \<open>
  On a JSON value: \<open>typeof v === 'object'\<close>, which holds of \<open>null\<close>, arrays and objects;
  \<open>k in v\<close> and \<open>v[k]\<close> for the member names \<open>openapi\<close> and \<open>swagger\<close>, which no array
  has.
\<close>

fun typeofObject :: "json \<Rightarrow> bool" where
  "typeofObject JNull = True"
| "typeofObject (JArr xs) = True"
| "typeofObject (JObj kvs) = True"
| "typeofObject v = False"

fun hasMember :: "string \<Rightarrow> json \<Rightarrow> bool" where
  "hasMember k (JObj kvs) = (map_of kvs k \<noteq> None)"
| "hasMember k v = False"

fun getMember :: "json \<Rightarrow> string \<Rightarrow> json option" where
  "getMember (JObj kvs) k = map_of kvs k"
| "getMember v k = None"

definition isOpenAPI3 :: "json \<Rightarrow> bool" where
  "isOpenAPI3 spec =
     (typeofObject spec \<and> spec \<noteq> JNull \<and> hasMember ''openapi'' spec
      \<and> (case getMember spec ''openapi'' of Some (JStr s) \<Rightarrow> True | _ \<Rightarrow> False)
      \<and> (case getMember spec ''openapi'' of Some (JStr s) \<Rightarrow> prefix ''3.'' s | _ \<Rightarrow> False))"

definition isSwagger2 :: "json \<Rightarrow> bool" where
  "isSwagger2 spec =
     (typeofObject spec \<and> spec \<noteq> JNull \<and> hasMember ''swagger'' spec
      \<and> getMember spec ''swagger'' = Some (JStr ''2.0''))"

text \<open>
  \<open>parseSpec(spec)\<close>. \<open>SwaggerParser.validate\<close> and \<open>SwaggerParser.parse\<close> belong to an
  external library: they are the arguments \<open>validate\<close> and \<open>parse\<close>, which return the
  validated document or the value they throw. \<open>structuredClone\<close> copies a JSON value to
  an equal one. The two extractors \<open>parseOpenAPI3\<close> and \<open>parseSwagger2\<close> are arguments
  too, called with the validated document and the warnings so far; each returns its
  result or, for the outer \<open>catch\<close>, the value it throws.
\<close>

definition parseSpec ::
  "(json \<Rightarrow> thrown + json) \<Rightarrow> (json \<Rightarrow> thrown + json)
   \<Rightarrow> (json \<Rightarrow> string list \<Rightarrow> thrown + ParseResult)
   \<Rightarrow> (json \<Rightarrow> string list \<Rightarrow> thrown + ParseResult)
   \<Rightarrow> json \<Rightarrow> ParseResult" where
  "parseSpec validate parse parseOpenAPI3 parseSwagger2 spec =
     (let caught = (\<lambda>r. case r of
                      Inr result \<Rightarrow> result
                    | Inl error \<Rightarrow> ParseFailure ''Failed to parse specification''
                                    (Some (messageOr error ''Unknown error'')));
          dispatch = (\<lambda>validatedSpec parseWarnings.
            if isOpenAPI3 validatedSpec then caught (parseOpenAPI3 validatedSpec parseWarnings)
            else if isSwagger2 validatedSpec then caught (parseSwagger2 validatedSpec parseWarnings)
            else ParseFailure ''Unsupported specification version''
                   (Some ''Only OpenAPI 3.x and Swagger 2.0 are supported''))
      in case validate spec of
           Inr validatedSpec \<Rightarrow> dispatch validatedSpec []
         | Inl error \<Rightarrow>
             (let msg = messageOr error ''Unknown validation error'';
                  isMissingRef = (stringIncludes msg ''Missing $ref pointer''
                                  \<or> stringIncludes msg ''does not exist'')
              in if isMissingRef
                 then (case parse spec of
                         Inr validatedSpec \<Rightarrow>
                           dispatch validatedSpec [''Unresolved references: '' @ msg]
                       | Inl e \<Rightarrow>
                           ParseFailure ''Invalid OpenAPI/Swagger specification'' (Some msg))
                 else ParseFailure ''Invalid OpenAPI/Swagger specification'' (Some msg)))"

text \<open>
  Documents without a dialect marker, the second with markers of other versions, and a
  validator that accepts every document, one that reports a missing \<open>$ref\<close> pointer, and
  an extractor that is never to be called.
\<close>

definition noMarker :: json where
  "noMarker = JObj [(''info'', JObj [(''title'', JStr ''Pets'')])]"

definition otherVersions :: json where
  "otherVersions = JObj [(''openapi'', JStr ''2.3''), (''swagger'', JStr ''1.2'')]"

definition acceptAll :: "json \<Rightarrow> thrown + json" where
  "acceptAll doc = Inr doc"

definition missingRef :: "json \<Rightarrow> thrown + json" where
  "missingRef doc = Inl (ErrorObject ''Missing $ref pointer #/components/schemas/Pet'')"

definition notCalled :: "json \<Rightarrow> string list \<Rightarrow> thrown + ParseResult" where
  "notCalled doc ws = Inl OtherValue"

section \<open>Properties of the diff engine\<close>

lemma length_filter_ChangeType:
  "length (filter (\<lambda>c. change_type c = Breaking) cs)
     + length (filter (\<lambda>c. change_type c = NonBreaking) cs) = length cs"
proof (induction cs)
  case Nil
  show ?case by simp
next
  case (Cons c cs)
  then show ?case by (cases "change_type c") simp_all
qed

text \<open>The counts of the model are tallies over its changes.\<close>

lemma diffSpecs_counts:
  "breakingCount (diffSpecs oldActions newActions)
     = length (filter (\<lambda>c. change_type c = Breaking) (changes (diffSpecs oldActions newActions)))
   \<and> nonBreakingCount (diffSpecs oldActions newActions)
     = length (filter (\<lambda>c. change_type c = NonBreaking) (changes (diffSpecs oldActions newActions)))
   \<and> breakingCount (diffSpecs oldActions newActions)
       + nonBreakingCount (diffSpecs oldActions newActions)
     = length (changes (diffSpecs oldActions newActions))"
  by (simp add: diffSpecs_def Let_def length_filter_ChangeType)

lemma foldl_push:
  "foldl (\<lambda>cs x. if P x then cs @ [f x] else cs) cs0 xs = cs0 @ map f (filter P xs)"
  by (induction xs arbitrary: cs0) simp_all

lemma foldl_push_case:
  "foldl (\<lambda>cs x. case g x of None \<Rightarrow> cs | Some y \<Rightarrow> if P y x then cs @ [f y x] else cs) cs0 xs
     = cs0 @ concat (map (\<lambda>x. case g x of None \<Rightarrow> [] | Some y \<Rightarrow> if P y x then [f y x] else []) xs)"
  by (induction xs arbitrary: cs0) (simp_all split: option.split)

lemma set_foldl_setAdd: "set (foldl setAdd s xs) = set s \<union> set xs"
  by (induction xs arbitrary: s) (auto simp: setAdd_def)

lemma setHas_newSet: "setHas (newSet xs) x \<longleftrightarrow> x \<in> set xs"
  by (simp add: setHas_def newSet_def set_foldl_setAdd)

lemma filter_filter_conj: "filter P (filter Q xs) = filter (\<lambda>x. Q x \<and> P x) xs"
  by (induction xs) simp_all

lemma compareEndpoints_steps:
  "compareEndpoints oldAction newAction cs =
     cs @ requiredParamAdded oldAction newAction @ optionalParamAdded oldAction newAction
        @ paramRemoved oldAction newAction @ paramTypeChanged oldAction newAction
        @ requiredBodyFieldAdded oldAction newAction @ responseFieldRemoved oldAction newAction
        @ descriptionChanged oldAction newAction"
  unfolding compareEndpoints_def Let_def foldl_push foldl_push_case
    requiredParamAdded_def optionalParamAdded_def paramRemoved_def paramTypeChanged_def
    requiredBodyFieldAdded_def responseFieldRemoved_def descriptionChanged_def
    setHas_newSet filter_filter_conj
  by simp

lemma foldl_push_pair:
  "foldl (\<lambda>cs (k, a). if P k a then cs @ [f k a] else cs) cs0 xs
     = cs0 @ map (\<lambda>(k, a). f k a) (filter (\<lambda>(k, a). P k a) xs)"
  by (induction xs arbitrary: cs0) (simp_all split: prod.split)

lemma foldl_compare:
  "foldl (\<lambda>cs (k, newAction). case g k of None \<Rightarrow> cs
                                | Some oldAction \<Rightarrow> compareEndpoints oldAction newAction cs) cs0 xs
     = cs0 @ concat (concat (map (\<lambda>(k, newAction). case g k of None \<Rightarrow> []
                                | Some oldAction \<Rightarrow> [compareEndpoints oldAction newAction []]) xs))"
proof (induction xs arbitrary: cs0)
  case Nil
  show ?case by simp
next
  case (Cons x xs)
  obtain k a where x: "x = (k, a)" by (cases x)
  show ?case
  proof (cases "g k")
    case None
    with Cons x show ?thesis by simp
  next
    case (Some old)
    have "compareEndpoints old a cs0 = cs0 @ compareEndpoints old a []"
      by (simp add: compareEndpoints_steps)
    with Cons x Some show ?thesis by simp
  qed
qed

lemma diffSpecs_changes:
  "changes (diffSpecs oldActions newActions) =
     endpointsRemoved oldActions newActions @ endpointsAdded oldActions newActions
       @ concat (endpointComparisons oldActions newActions)"
  unfolding diffSpecs_def Let_def foldl_push_pair foldl_compare
    endpointsRemoved_def endpointsAdded_def endpointComparisons_def
  by simp

lemma category_mkChange [simp]: "category (mkChange t c msg m p) = c"
  by (simp add: mkChange_def)

lemma change_type_mkChange [simp]: "change_type (mkChange t c msg m p) = t"
  by (simp add: mkChange_def)

lemma category_requiredParamAdded:
  "c \<in> set (requiredParamAdded oldAction newAction) \<Longrightarrow> category c = ''required-param-added''"
  by (auto simp: requiredParamAdded_def)

lemma category_optionalParamAdded:
  "c \<in> set (optionalParamAdded oldAction newAction) \<Longrightarrow> category c = ''optional-param-added''"
  by (auto simp: optionalParamAdded_def)

lemma category_paramRemoved:
  "c \<in> set (paramRemoved oldAction newAction) \<Longrightarrow> category c = ''param-removed''"
  by (auto simp: paramRemoved_def)

lemma category_paramTypeChanged:
  "c \<in> set (paramTypeChanged oldAction newAction) \<Longrightarrow> category c = ''param-type-changed''"
  by (auto simp: paramTypeChanged_def split: option.splits if_splits)

lemma category_requiredBodyFieldAdded:
  "c \<in> set (requiredBodyFieldAdded oldAction newAction)
     \<Longrightarrow> category c = ''required-body-field-added''"
  by (auto simp: requiredBodyFieldAdded_def)

lemma category_responseFieldRemoved:
  "c \<in> set (responseFieldRemoved oldAction newAction) \<Longrightarrow> category c = ''response-field-removed''"
  by (auto simp: responseFieldRemoved_def)

lemma category_descriptionChanged:
  "c \<in> set (descriptionChanged oldAction newAction) \<Longrightarrow> category c = ''description-changed''"
  by (auto simp: descriptionChanged_def split: if_splits)

lemmas category_steps =
  category_requiredParamAdded category_optionalParamAdded category_paramRemoved
  category_paramTypeChanged category_requiredBodyFieldAdded category_responseFieldRemoved
  category_descriptionChanged

lemma subOrder_values:
  "subOrder ''required-param-added'' = 1"
  "subOrder ''optional-param-added'' = 2"
  "subOrder ''param-removed'' = 3"
  "subOrder ''param-type-changed'' = 4"
  "subOrder ''required-body-field-added'' = 5"
  "subOrder ''response-field-removed'' = 6"
  "subOrder ''description-changed'' = 7"
  by (simp_all add: subOrder_def)

lemma map_const_replicate: "(\<And>x. x \<in> set xs \<Longrightarrow> f x = n) \<Longrightarrow> map f xs = replicate (length xs) n"
  by (induction xs) auto

lemma subOrder_steps:
  "map (\<lambda>c. subOrder (category c)) (requiredParamAdded oldAction newAction)
     = replicate (length (requiredParamAdded oldAction newAction)) 1"
  "map (\<lambda>c. subOrder (category c)) (optionalParamAdded oldAction newAction)
     = replicate (length (optionalParamAdded oldAction newAction)) 2"
  "map (\<lambda>c. subOrder (category c)) (paramRemoved oldAction newAction)
     = replicate (length (paramRemoved oldAction newAction)) 3"
  "map (\<lambda>c. subOrder (category c)) (paramTypeChanged oldAction newAction)
     = replicate (length (paramTypeChanged oldAction newAction)) 4"
  "map (\<lambda>c. subOrder (category c)) (requiredBodyFieldAdded oldAction newAction)
     = replicate (length (requiredBodyFieldAdded oldAction newAction)) 5"
  "map (\<lambda>c. subOrder (category c)) (responseFieldRemoved oldAction newAction)
     = replicate (length (responseFieldRemoved oldAction newAction)) 6"
  "map (\<lambda>c. subOrder (category c)) (descriptionChanged oldAction newAction)
     = replicate (length (descriptionChanged oldAction newAction)) 7"
  by (rule map_const_replicate, simp add: category_steps subOrder_values)+

lemma sorted_steps:
  "sorted (map (\<lambda>c. subOrder (category c)) (compareEndpoints oldAction newAction []))"
  unfolding compareEndpoints_steps
  by (auto simp: subOrder_steps sorted_append)

lemma filter_category_compareEndpoints:
  "filter (\<lambda>c. category c = ''required-param-added'') (compareEndpoints oldAction newAction [])
     = requiredParamAdded oldAction newAction"
proof -
  let ?P = "\<lambda>c. category c = ''required-param-added''"
  have a: "filter ?P (requiredParamAdded oldAction newAction) = requiredParamAdded oldAction newAction"
    by (simp add: filter_id_conv category_requiredParamAdded)
  have b: "filter ?P (optionalParamAdded oldAction newAction) = []"
    by (auto simp: filter_empty_conv dest: category_optionalParamAdded)
  have c: "filter ?P (paramRemoved oldAction newAction) = []"
    by (auto simp: filter_empty_conv dest: category_paramRemoved)
  have d: "filter ?P (paramTypeChanged oldAction newAction) = []"
    by (auto simp: filter_empty_conv dest: category_paramTypeChanged)
  have e: "filter ?P (requiredBodyFieldAdded oldAction newAction) = []"
    by (auto simp: filter_empty_conv dest: category_requiredBodyFieldAdded)
  have f: "filter ?P (responseFieldRemoved oldAction newAction) = []"
    by (auto simp: filter_empty_conv dest: category_responseFieldRemoved)
  have g: "filter ?P (descriptionChanged oldAction newAction) = []"
    by (auto simp: filter_empty_conv dest: category_descriptionChanged)
  show ?thesis
    unfolding compareEndpoints_steps by (simp add: a b c d e f g)
qed

lemma category_endpointsRemoved:
  "c \<in> set (endpointsRemoved oldActions newActions) \<Longrightarrow> category c = ''endpoint-removed''"
  by (auto simp: endpointsRemoved_def)

lemma category_endpointsAdded:
  "c \<in> set (endpointsAdded oldActions newActions) \<Longrightarrow> category c = ''endpoint-added''"
  by (auto simp: endpointsAdded_def)

lemma filter_concat: "filter P (concat xss) = concat (map (filter P) xss)"
  by (induction xss) simp_all

lemma filter_category_blocks:
  "concat (map (filter (\<lambda>c. category c = ''required-param-added''))
             (concat (map (\<lambda>(k, newAction).
                (case g k of None \<Rightarrow> []
                 | Some oldAction \<Rightarrow> [compareEndpoints oldAction newAction []])) xs)))
     = concat (map (\<lambda>(k, newAction).
          (case g k of None \<Rightarrow> []
           | Some oldAction \<Rightarrow> requiredParamAdded oldAction newAction)) xs)"
  by (induction xs) (auto simp: filter_category_compareEndpoints split: option.splits)

lemma filter_category_diffSpecs:
  "filter (\<lambda>c. category c = ''required-param-added'') (changes (diffSpecs oldActions newActions))
     = concat (map (\<lambda>(k, newAction).
          (case mapGet (buildMap oldActions) k of
             None \<Rightarrow> []
           | Some oldAction \<Rightarrow> requiredParamAdded oldAction newAction))
        (buildMap newActions))"
proof -
  let ?P = "\<lambda>c. category c = ''required-param-added''"
  have r: "filter ?P (endpointsRemoved oldActions newActions) = []"
    by (auto simp: filter_empty_conv dest: category_endpointsRemoved)
  have a: "filter ?P (endpointsAdded oldActions newActions) = []"
    by (auto simp: filter_empty_conv dest: category_endpointsAdded)
  show ?thesis
    unfolding diffSpecs_changes
    by (simp add: r a filter_concat endpointComparisons_def filter_category_blocks)
qed

lemma requiredParamAdded_optional_query:
  "\<not> required opt \<Longrightarrow>
     requiredParamAdded (oldAction\<lparr>queryParams := opt # queryParams oldAction\<rparr>) newAction
       = requiredParamAdded oldAction newAction"
  by (simp add: requiredParamAdded_def)

lemma requiredParamAdded_optional_path:
  "\<not> required opt \<Longrightarrow>
     requiredParamAdded (oldAction\<lparr>pathParams := opt # pathParams oldAction\<rparr>) newAction
       = requiredParamAdded oldAction newAction"
  by (simp add: requiredParamAdded_def)

lemma change_type_requiredParamAdded:
  "list_all (\<lambda>c. change_type c = Breaking) (requiredParamAdded oldAction newAction)"
  by (auto simp: requiredParamAdded_def list_all_iff)

lemma foldl_last:
  "foldl (\<lambda>r b. if P b then f b else r) r0 xs
     = (if filter P xs = [] then r0 else f (last (filter P xs)))"
  by (induction xs arbitrary: r0) auto

lemma lastSeen_last:
  "lastSeen xs a = last (a # filter (\<lambda>b. actionKey b = actionKey a) xs)"
  unfolding lastSeen_def foldl_last [where f = "\<lambda>b. b"] by simp

lemma actionKey_lastSeen [simp]: "actionKey (lastSeen xs a) = actionKey a"
proof (cases "filter (\<lambda>b. actionKey b = actionKey a) xs = []")
  case True
  then show ?thesis by (simp add: lastSeen_last)
next
  case False
  then have "last (filter (\<lambda>b. actionKey b = actionKey a) xs)
      \<in> set (filter (\<lambda>b. actionKey b = actionKey a) xs)"
    by (rule last_in_set)
  with False show ?thesis by (simp add: lastSeen_last)
qed

lemma keys_foldl_mapSet:
  "map fst (foldl (\<lambda>mp a. mapSet (f a) a mp) m xs) = foldl setAdd (map fst m) (map f xs)"
  by (induction xs arbitrary: m) (simp_all add: mapSet_def setAdd_def update_keys)

lemma map_of_foldl_mapSet:
  "map_of (foldl (\<lambda>mp a. mapSet (f a) a mp) m xs) k
     = foldl (\<lambda>r b. if f b = k then Some b else r) (map_of m k) xs"
  by (induction xs arbitrary: m) (simp_all add: mapSet_def update_conv')

lemma distinct_foldl_mapSet:
  "distinct (map fst m) \<Longrightarrow> distinct (map fst (foldl (\<lambda>mp a. mapSet (f a) a mp) m xs))"
  by (induction xs arbitrary: m) (simp_all add: mapSet_def distinct_update)

lemma alist_eqI:
  "distinct (map fst xs) \<Longrightarrow> map fst xs = map fst ys \<Longrightarrow> map_of xs = map_of ys \<Longrightarrow> xs = ys"
proof (induction xs arbitrary: ys)
  case Nil
  then show ?case by simp
next
  case (Cons x xs)
  then obtain y ys' where ys: "ys = y # ys'" by (cases ys) auto
  obtain k v where x: "x = (k, v)" by (cases x)
  obtain k' v' where y: "y = (k', v')" by (cases y)
  from Cons.prems(2) ys x y have k: "k' = k" and keys: "map fst xs = map fst ys'" by auto
  from Cons.prems(3) have "map_of (x # xs) k = map_of ys k" by (rule fun_cong)
  with ys x y k have v: "v' = v" by simp
  from Cons.prems(1) x have notin: "k \<notin> fst ` set xs" and dist: "distinct (map fst xs)" by auto
  from notin keys have notin': "k \<notin> fst ` set ys'" by (metis set_map)
  have "map_of xs = map_of ys'"
  proof
    fix z
    show "map_of xs z = map_of ys' z"
    proof (cases "z = k")
      case True
      from notin notin' have "map_of xs k = None" and "map_of ys' k = None"
        by (simp_all add: map_of_eq_None_iff)
      with True show ?thesis by simp
    next
      case False
      from Cons.prems(3) have "map_of (x # xs) z = map_of ys z" by (rule fun_cong)
      with ys x y k False show ?thesis by simp
    qed
  qed
  with Cons.IH [OF dist keys] ys x y k v show ?case by simp
qed

lemma buildMap_lastSeen: "buildMap (map (lastSeen xs) xs) = buildMap xs"
proof (rule alist_eqI)
  show "distinct (map fst (buildMap (map (lastSeen xs) xs)))"
    unfolding buildMap_def by (rule distinct_foldl_mapSet) simp
  show "map fst (buildMap (map (lastSeen xs) xs)) = map fst (buildMap xs)"
    unfolding buildMap_def keys_foldl_mapSet by (simp add: comp_def)
  show "map_of (buildMap (map (lastSeen xs) xs)) = map_of (buildMap xs)"
  proof
    fix k
    let ?P = "\<lambda>b. actionKey b = k"
    have filt: "filter ?P (map (lastSeen xs) xs) = map (lastSeen xs) (filter ?P xs)"
      by (simp add: filter_map comp_def)
    have "foldl (\<lambda>r b. if ?P b then Some b else r) None (map (lastSeen xs) xs)
        = foldl (\<lambda>r b. if ?P b then Some b else r) None xs"
    proof (cases "filter ?P xs = []")
      case True
      then show ?thesis unfolding foldl_last filt by simp
    next
      case False
      then have "last (filter ?P xs) \<in> set (filter ?P xs)" by (rule last_in_set)
      then have key: "actionKey (last (filter ?P xs)) = k" by simp
      have "lastSeen xs (last (filter ?P xs)) = last (filter ?P xs)"
        using False by (simp add: lastSeen_last key)
      with False show ?thesis unfolding foldl_last filt by (simp add: last_map)
    qed
    then show "map_of (buildMap (map (lastSeen xs) xs)) k = map_of (buildMap xs) k"
      unfolding buildMap_def map_of_foldl_mapSet by simp
  qed
qed

lemma lookup_lastSeen:
  "a \<in> set xs \<Longrightarrow> mapGet (buildMap xs) (actionKey a) = Some (lastSeen xs a)"
  unfolding mapGet_def buildMap_def map_of_foldl_mapSet foldl_last lastSeen_last
  by (auto simp: filter_empty_conv)

lemmas sample_defs = sampleAction_def sampleParam_def sameNameAction_def petsPlain_def
  petsOptionalStatus_def petsRequiredStatus_def petsBefore_def petsAfter_def

lemmas diff_eval = diffSpecs_def buildMap_def mapSet_def mapGet_def mapHas_def
  compareEndpoints_def Let_def newSet_def setAdd_def setHas_def actionKey_def mkChange_def
  dquote_def

subsection \<open>Comparing a list with itself\<close>

text \<open>
  Claim C2. For every action list \<open>A\<close>, \<open>diffSpecs A A\<close> should return no changes and
  both counts 0. The code does not do so for the one-action list \<open>[sameNameAction]\<close>:
  \<open>compareEndpoints\<close> keys its map of old parameters by the parameter's name alone, the path
  parameter \<open>id\<close> (number) replaces the query parameter \<open>id\<close> (string) in it, and the
  query parameter is then reported as changed in type against the action itself.
\<close>

theorem diffSpecs_self_type_changed:
  "changes (diffSpecs [sameNameAction] [sameNameAction])
     = [mkChange Breaking ''param-type-changed''
          (''Parameter type changed: '' @ dquote @ ''id'' @ dquote
             @ '' number -> string on GET /items/{id}'') GET ''/items/{id}'']
   \<and> breakingCount (diffSpecs [sameNameAction] [sameNameAction]) = 1
   \<and> nonBreakingCount (diffSpecs [sameNameAction] [sameNameAction]) = 0"
  by (simp add: diff_eval sample_defs)

lemma map_of_foldl_in:
  "map_of (foldl (\<lambda>mp a. mapSet (f a) a mp) [] xs) k = Some v \<Longrightarrow> v \<in> set xs \<and> f v = k"
  unfolding map_of_foldl_mapSet foldl_last [where f = Some]
  by (auto split: if_splits dest: last_in_set)

lemma typeChanged_none:
  assumes "\<And>q r. q \<in> set ps \<Longrightarrow> r \<in> set ps \<Longrightarrow> key q = key r \<Longrightarrow> ftype q = ftype r"
  shows "concat (map (\<lambda>q.
      (case mapGet (foldl (\<lambda>mp r. mapSet (key r) r mp) [] ps) (key q) of
         None \<Rightarrow> []
       | Some old \<Rightarrow> if ftype old \<noteq> ftype q then [c old q] else [])) ps) = []"
proof -
  have "(case mapGet (foldl (\<lambda>mp r. mapSet (key r) r mp) [] ps) (key q) of
           None \<Rightarrow> []
         | Some old \<Rightarrow> if ftype old \<noteq> ftype q then [c old q] else []) = []"
    if q: "q \<in> set ps" for q
  proof (cases "mapGet (foldl (\<lambda>mp r. mapSet (key r) r mp) [] ps) (key q)")
    case None
    then show ?thesis by simp
  next
    case (Some old)
    then have "old \<in> set ps" and "key old = key q"
      using map_of_foldl_in [of key ps "key q" old] by (simp_all add: mapGet_def)
    with q have "ftype old = ftype q" using assms [of old q] by simp
    with Some show ?thesis by simp
  qed
  then show ?thesis by (simp add: concat_eq_Nil_conv)
qed

lemma compareEndpoints_self:
  assumes "sameKeySameType a"
  shows "compareEndpoints a a [] = []"
proof -
  have same: "ftype q = ftype r"
    if "q \<in> set (queryParams a @ pathParams a)" and "r \<in> set (queryParams a @ pathParams a)"
      and "key q = key r" for q r
    using assms that unfolding sameKeySameType_def list_all_iff by blast
  have "paramTypeChanged a a = []"
    unfolding paramTypeChanged_def using same by (rule typeChanged_none)
  moreover have "requiredParamAdded a a = []"
    by (auto simp: requiredParamAdded_def filter_empty_conv)
  moreover have "optionalParamAdded a a = []"
    by (auto simp: optionalParamAdded_def filter_empty_conv)
  moreover have "requiredBodyFieldAdded a a = []"
    by (auto simp: requiredBodyFieldAdded_def filter_empty_conv)
  moreover have "responseFieldRemoved a a = []"
    by (auto simp: responseFieldRemoved_def filter_empty_conv)
  moreover have "descriptionChanged a a = []"
    by (simp add: descriptionChanged_def)
  moreover have "paramRemoved a a = []"
    by (auto simp: paramRemoved_def filter_empty_conv newSet_def set_foldl_setAdd)
  ultimately show ?thesis by (simp add: compareEndpoints_steps)
qed

lemma buildMap_entries:
  assumes "(k, a) \<in> set (buildMap xs)"
  shows "a \<in> set xs \<and> mapGet (buildMap xs) k = Some a"
proof -
  have d: "distinct (map fst (buildMap xs))"
    unfolding buildMap_def by (rule distinct_foldl_mapSet) simp
  from assms d have m: "map_of (buildMap xs) k = Some a" by simp
  then have "a \<in> set xs"
    unfolding buildMap_def using map_of_foldl_in [of actionKey xs k a] by simp
  with m show ?thesis by (simp add: mapGet_def)
qed

text \<open>
  On a list in which parameters of one key have one type within each action, the
  comparison of the list with itself does return no changes and both counts 0.
\<close>

lemma diffSpecs_self:
  assumes "list_all sameKeySameType A"
  shows "diffSpecs A A = \<lparr>changes = [], breakingCount = 0, nonBreakingCount = 0\<rparr>"
proof -
  have r: "endpointsRemoved A A = []"
    unfolding endpointsRemoved_def
    by (auto simp: filter_empty_conv mapHas_def dest: buildMap_entries simp: mapGet_def)
  have a: "endpointsAdded A A = []"
    unfolding endpointsAdded_def
    by (auto simp: filter_empty_conv mapHas_def dest: buildMap_entries simp: mapGet_def)
  have c: "concat (endpointComparisons A A) = []"
  proof -
    have "(case mapGet (buildMap A) k of None \<Rightarrow> []
           | Some oldAction \<Rightarrow> [compareEndpoints oldAction newAction []]) = [[]]"
      if "(k, newAction) \<in> set (buildMap A)" for k newAction
    proof -
      from that have "newAction \<in> set A" and g: "mapGet (buildMap A) k = Some newAction"
        using buildMap_entries by blast+
      with assms have "sameKeySameType newAction" by (simp add: list_all_iff)
      with g show ?thesis by (simp add: compareEndpoints_self)
    qed
    then have each: "(case mapGet (buildMap A) (fst e) of None \<Rightarrow> []
           | Some oldAction \<Rightarrow> [compareEndpoints oldAction (snd e) []]) = [[]]"
      if "e \<in> set (buildMap A)" for e
      using that by (cases e) simp
    have "block = []" if "block \<in> set (endpointComparisons A A)" for block
    proof -
      from that obtain e where e: "e \<in> set (buildMap A)"
        and "block \<in> set (case mapGet (buildMap A) (fst e) of None \<Rightarrow> []
           | Some oldAction \<Rightarrow> [compareEndpoints oldAction (snd e) []])"
        unfolding endpointComparisons_def by (auto simp: case_prod_beta)
      with each [OF e] show ?thesis by simp
    qed
    then show ?thesis by (simp add: concat_eq_Nil_conv)
  qed
  have "changes (diffSpecs A A) = []"
    by (simp add: diffSpecs_changes r a c)
  then show ?thesis
    by (simp add: diffSpecs_def Let_def)
qed

subsection \<open>Required parameters\<close>

text \<open>
  Claim C3. Among the changes \<open>diffSpecs\<close> returns, those of category
  required-param-added are, for every key of the new map that the old map has too and in
  the order of the new map, exactly one change for each new query or path parameter that is
  required and whose key is not the key of a required parameter of the old action; they
  are all breaking. Whether the old action has the parameter as an optional one or not at
  all makes no difference: putting an optional parameter in front of the old action's
  query or path parameters leaves these changes as they are.
\<close>

theorem requiredParamAdded_exact:
  "filter (\<lambda>c. category c = ''required-param-added'') (changes (diffSpecs oldActions newActions))
     = concat (map (\<lambda>(k, newAction).
          (case mapGet (buildMap oldActions) k of
             None \<Rightarrow> []
           | Some oldAction \<Rightarrow> requiredParamAdded oldAction newAction))
        (buildMap newActions))
   \<and> list_all (\<lambda>c. change_type c = Breaking)
        (filter (\<lambda>c. category c = ''required-param-added'')
           (changes (diffSpecs oldActions newActions)))
   \<and> (\<not> required opt \<longrightarrow>
        requiredParamAdded (oldAction\<lparr>queryParams := opt # queryParams oldAction\<rparr>) newAction
          = requiredParamAdded oldAction newAction)
   \<and> (\<not> required opt \<longrightarrow>
        requiredParamAdded (oldAction\<lparr>pathParams := opt # pathParams oldAction\<rparr>) newAction
          = requiredParamAdded oldAction newAction)"
proof -
  let ?rhs = "concat (map (\<lambda>(k, newAction).
          (case mapGet (buildMap oldActions) k of
             None \<Rightarrow> []
           | Some oldAction \<Rightarrow> requiredParamAdded oldAction newAction))
        (buildMap newActions))"
  have "list_all (\<lambda>c. change_type c = Breaking) ?rhs"
    using change_type_requiredParamAdded
    by (auto simp: list_all_iff split: option.splits)
  then show ?thesis
    by (simp add: filter_category_diffSpecs requiredParamAdded_optional_query
        requiredParamAdded_optional_path)
qed

theorem requiredParamAdded_exact_witness:
  "filter (\<lambda>c. category c = ''required-param-added'')
       (changes (diffSpecs [petsOptionalStatus] [petsRequiredStatus]))
     = [mkChange Breaking ''required-param-added''
          (''Required parameter added: '' @ dquote @ ''status'' @ dquote @ '' on GET /pets'')
          GET ''/pets'']
   \<and> filter (\<lambda>c. category c = ''required-param-added'')
       (changes (diffSpecs [petsPlain] [petsRequiredStatus]))
     = [mkChange Breaking ''required-param-added''
          (''Required parameter added: '' @ dquote @ ''status'' @ dquote @ '' on GET /pets'')
          GET ''/pets'']
   \<and> \<not> required (sampleParam ''status'' TString False)
   \<and> requiredParamAdded
         (petsPlain\<lparr>queryParams := sampleParam ''status'' TString False # queryParams petsPlain\<rparr>)
         petsRequiredStatus
       = requiredParamAdded petsPlain petsRequiredStatus"
  using requiredParamAdded_exact [of "[petsOptionalStatus]" "[petsRequiredStatus]"
      "sampleParam ''status'' TString False" petsPlain petsRequiredStatus]
    requiredParamAdded_exact [of "[petsPlain]" "[petsRequiredStatus]"
      "sampleParam ''status'' TString False" petsPlain petsRequiredStatus]
  by (simp add: diff_eval sample_defs requiredParamAdded_def)

subsection \<open>Order of the changes\<close>

text \<open>
  Claim C5. The changes \<open>diffSpecs\<close> returns are, in this order: the endpoint-removed
  changes, the endpoint-added changes, and then, for each key that both maps have, the
  changes of that endpoint's comparison. The changes of one endpoint's comparison have
  only the seven categories of step 4 and come in the sub-order required-param-added,
  optional-param-added, param-removed, param-type-changed, required-body-field-added,
  response-field-removed, description-changed.
\<close>

theorem diffSpecs_order:
  "changes (diffSpecs oldActions newActions)
     = endpointsRemoved oldActions newActions @ endpointsAdded oldActions newActions
         @ concat (endpointComparisons oldActions newActions)
   \<and> list_all (\<lambda>c. category c = ''endpoint-removed'') (endpointsRemoved oldActions newActions)
   \<and> list_all (\<lambda>c. category c = ''endpoint-added'') (endpointsAdded oldActions newActions)
   \<and> list_all (\<lambda>block. sorted (map (\<lambda>c. subOrder (category c)) block)
                    \<and> list_all (\<lambda>c. 1 \<le> subOrder (category c)) block)
        (endpointComparisons oldActions newActions)"
proof -
  have blocks: "block \<in> set (endpointComparisons oldActions newActions) \<Longrightarrow>
      \<exists>oldAction newAction. block = compareEndpoints oldAction newAction []" for block
    by (auto simp: endpointComparisons_def split: option.splits)
  have seven: "list_all (\<lambda>c. 1 \<le> subOrder (category c)) (compareEndpoints oldAction newAction [])"
    for oldAction newAction
    unfolding compareEndpoints_steps list_all_iff
    by (auto dest!: category_steps simp: subOrder_values)
  have removed: "list_all (\<lambda>c. category c = ''endpoint-removed'')
      (endpointsRemoved oldActions newActions)"
    by (auto simp: list_all_iff dest: category_endpointsRemoved)
  have added: "list_all (\<lambda>c. category c = ''endpoint-added'')
      (endpointsAdded oldActions newActions)"
    by (auto simp: list_all_iff dest: category_endpointsAdded)
  have compared: "list_all (\<lambda>block. sorted (map (\<lambda>c. subOrder (category c)) block)
                    \<and> list_all (\<lambda>c. 1 \<le> subOrder (category c)) block)
        (endpointComparisons oldActions newActions)"
    unfolding list_all_iff [of _ "endpointComparisons oldActions newActions"]
  proof
    fix block
    assume "block \<in> set (endpointComparisons oldActions newActions)"
    then obtain oldAction newAction where "block = compareEndpoints oldAction newAction []"
      using blocks by blast
    then show "sorted (map (\<lambda>c. subOrder (category c)) block)
        \<and> list_all (\<lambda>c. 1 \<le> subOrder (category c)) block"
      using seven sorted_steps by simp
  qed
  show ?thesis
    using removed added compared by (simp add: diffSpecs_changes)
qed

theorem diffSpecs_order_witness:
  "map category (changes (diffSpecs petsBefore petsAfter))
     = [''endpoint-removed'', ''endpoint-added'', ''required-param-added'',
        ''optional-param-added'', ''param-type-changed'']
   \<and> map category (endpointsRemoved petsBefore petsAfter) = [''endpoint-removed'']
   \<and> map category (endpointsAdded petsBefore petsAfter) = [''endpoint-added'']
   \<and> map (map category) (endpointComparisons petsBefore petsAfter)
     = [[''required-param-added'', ''optional-param-added'', ''param-type-changed'']]"
  using diffSpecs_order [of petsBefore petsAfter]
  by (simp add: endpointsRemoved_def endpointsAdded_def endpointComparisons_def
      diff_eval sample_defs)

subsection \<open>Duplicate keys\<close>

text \<open>
  Claim C6. Where an action list has several actions of one key, \<open>diffSpecs\<close> uses the
  last of them: the result is the same when every action of either list, or of both, is
  replaced by the last action of its key in that list, and the lookup map built from a
  list holds, for the key of each of its actions, the last action of that key.
\<close>

theorem diffSpecs_lastSeen:
  "diffSpecs (map (lastSeen oldActions) oldActions) (map (lastSeen newActions) newActions)
     = diffSpecs oldActions newActions
   \<and> diffSpecs (map (lastSeen oldActions) oldActions) newActions = diffSpecs oldActions newActions
   \<and> diffSpecs oldActions (map (lastSeen newActions) newActions) = diffSpecs oldActions newActions
   \<and> list_all (\<lambda>a. mapGet (buildMap oldActions) (actionKey a) = Some (lastSeen oldActions a))
        oldActions"
  by (simp add: diffSpecs_def buildMap_lastSeen list_all_iff lookup_lastSeen)

theorem diffSpecs_lastSeen_witness:
  "diffSpecs [petsOptionalStatus, petsRequiredStatus] [petsPlain]
     = diffSpecs [petsRequiredStatus, petsRequiredStatus] [petsPlain]
   \<and> changes (diffSpecs [petsOptionalStatus, petsRequiredStatus] [petsPlain])
     = [mkChange Breaking ''param-removed''
          (''Parameter removed: '' @ dquote @ ''status'' @ dquote @ '' from GET /pets'')
          GET ''/pets'']
   \<and> mapGet (buildMap [petsOptionalStatus, petsRequiredStatus]) (actionKey petsOptionalStatus)
     = Some petsRequiredStatus"
  using diffSpecs_lastSeen [of "[petsOptionalStatus, petsRequiredStatus]" "[petsPlain]"]
  by (simp add: diff_eval sample_defs lastSeen_def)

subsection \<open>Absent collections, and the counts\<close>

lemma typedAction_rawAction [simp]: "typedAction (rawAction a) = Some a"
  by (simp add: typedAction_def rawAction_def)

lemma rawKey_rawAction [simp]: "rawKey (rawAction a) = actionKey a"
  by (simp add: rawKey_def actionKey_def rawAction_def)

lemma update_map_value:
  "AList.update k (f v) (map (\<lambda>(k, v). (k, f v)) m) = map (\<lambda>(k, v). (k, f v)) (AList.update k v m)"
  by (induction m) auto

lemma buildMapRaw_rawAction_aux:
  "foldl (\<lambda>mp a. mapSet (rawKey a) a mp) (map (\<lambda>(k, v). (k, rawAction v)) m) (map rawAction xs)
     = map (\<lambda>(k, v). (k, rawAction v)) (foldl (\<lambda>mp a. mapSet (actionKey a) a mp) m xs)"
  by (induction xs arbitrary: m) (simp_all add: mapSet_def update_map_value)

lemma buildMapRaw_rawAction:
  "buildMapRaw (map rawAction xs) = map (\<lambda>(k, v). (k, rawAction v)) (buildMap xs)"
  using buildMapRaw_rawAction_aux [of "[]" xs] by (simp add: buildMapRaw_def buildMap_def)

lemma map_of_map_value:
  "map_of (map (\<lambda>(k, v). (k, f v)) m) k = map_option f (map_of m k)"
  by (induction m) auto

lemma mapHas_map_value [simp]: "mapHas (map (\<lambda>(k, v). (k, f v)) m) k = mapHas m k"
  by (simp add: mapHas_def map_of_map_value)

lemma mapGet_map_value: "mapGet (map (\<lambda>(k, v). (k, f v)) m) k = map_option f (mapGet m k)"
  by (simp add: mapGet_def map_of_map_value)

lemma foldl_map_pairs:
  "foldl g s (map (\<lambda>(k, v). (k, f v)) xs) = foldl (\<lambda>s (k, v). g s (k, f v)) s xs"
  by (induction xs arbitrary: s) (simp_all split: prod.split)

lemma foldl_Inr:
  "(\<And>s x. x \<in> set xs \<Longrightarrow> g (Inr s) x = Inr (h s x))
     \<Longrightarrow> foldl g (Inr s) xs = Inr (foldl h s xs)"
  by (induction xs arbitrary: s) simp_all

lemma method_rawAction [simp]: "raw_method (rawAction a) = method a"
  and path_rawAction [simp]: "raw_path (rawAction a) = path a"
  by (simp_all add: rawAction_def)

lemma foldl_removed_raw:
  "foldl (\<lambda>cs (k, oldAction).
       if \<not> mapHas RM k
       then cs @ [mkChange Breaking ''endpoint-removed''
              (''Endpoint removed: '' @ methodStr (raw_method oldAction) @ '' ''
                 @ raw_path oldAction)
              (raw_method oldAction) (raw_path oldAction)]
       else cs) cs0 (map (\<lambda>(k, v). (k, rawAction v)) m)
   = foldl (\<lambda>cs (k, oldAction).
       if \<not> mapHas RM k
       then cs @ [mkChange Breaking ''endpoint-removed''
              (''Endpoint removed: '' @ methodStr (method oldAction) @ '' '' @ path oldAction)
              (method oldAction) (path oldAction)]
       else cs) cs0 m"
  by (induction m arbitrary: cs0) (simp_all split: prod.split)

lemma foldl_added_raw:
  "foldl (\<lambda>cs (k, newAction).
       if \<not> mapHas RM k
       then cs @ [mkChange NonBreaking ''endpoint-added''
              (''Endpoint added: '' @ methodStr (raw_method newAction) @ '' ''
                 @ raw_path newAction)
              (raw_method newAction) (raw_path newAction)]
       else cs) cs0 (map (\<lambda>(k, v). (k, rawAction v)) m)
   = foldl (\<lambda>cs (k, newAction).
       if \<not> mapHas RM k
       then cs @ [mkChange NonBreaking ''endpoint-added''
              (''Endpoint added: '' @ methodStr (method newAction) @ '' '' @ path newAction)
              (method newAction) (path newAction)]
       else cs) cs0 m"
  by (induction m arbitrary: cs0) (simp_all split: prod.split)

lemma foldl_compare_raw:
  "foldl (\<lambda>r (k, newAction).
       (case r of
          Inl e \<Rightarrow> Inl e
        | Inr cs \<Rightarrow>
            (case mapGet (map (\<lambda>(k, v). (k, rawAction v)) om) k of
               None \<Rightarrow> Inr cs
             | Some oldAction \<Rightarrow> compareEndpointsRaw oldAction newAction cs)))
     (Inr cs0) (map (\<lambda>(k, v). (k, rawAction v)) m)
   = Inr (foldl (\<lambda>cs (k, newAction).
       (case mapGet om k of
          None \<Rightarrow> cs
        | Some oldAction \<Rightarrow> compareEndpoints oldAction newAction cs)) cs0 m)"
  by (induction m arbitrary: cs0)
    (simp_all add: mapGet_map_value compareEndpointsRaw_def split: prod.split option.split)

lemma diffSpecsRaw_rawAction:
  "diffSpecsRaw (map rawAction oldActions) (map rawAction newActions)
     = Inr (diffSpecs oldActions newActions)"
  unfolding diffSpecsRaw_def diffSpecs_def Let_def buildMapRaw_rawAction
    foldl_removed_raw foldl_added_raw foldl_compare_raw
  by simp


lemma foldl_compare_Inl:
  "foldl (\<lambda>r (k, newAction).
       (case r of
          Inl e \<Rightarrow> Inl e
        | Inr cs \<Rightarrow>
            (case mapGet om k of
               None \<Rightarrow> Inr cs
             | Some oldAction \<Rightarrow> compareEndpointsRaw oldAction newAction cs)))
     (Inl e) m = Inl e"
  by (induction m) (simp_all split: prod.split)

lemma compareEndpointsRaw_returns:
  "(\<exists>cs'. compareEndpointsRaw oldAction newAction cs = Inr cs')
     \<longleftrightarrow> typedAction oldAction \<noteq> None \<and> typedAction newAction \<noteq> None"
  by (auto simp: compareEndpointsRaw_def split: option.splits)

lemma foldl_compare_returns:
  "(\<exists>cs'. foldl (\<lambda>r (k, newAction).
       (case r of
          Inl e \<Rightarrow> Inl e
        | Inr cs \<Rightarrow>
            (case mapGet om k of
               None \<Rightarrow> Inr cs
             | Some oldAction \<Rightarrow> compareEndpointsRaw oldAction newAction cs)))
     (Inr cs0) m = Inr cs')
   \<longleftrightarrow> list_all (\<lambda>(k, newAction).
        (case mapGet om k of
           None \<Rightarrow> True
         | Some oldAction \<Rightarrow> typedAction oldAction \<noteq> None \<and> typedAction newAction \<noteq> None)) m"
proof (induction m arbitrary: cs0)
  case Nil
  show ?case by simp
next
  case (Cons x m)
  obtain k newAction where x: "x = (k, newAction)" by (cases x)
  show ?case
  proof (cases "mapGet om k")
    case None
    with Cons x show ?thesis by simp
  next
    case (Some oldAction)
    show ?thesis
    proof (cases "compareEndpointsRaw oldAction newAction cs0")
      case (Inl e)
      then have "\<not> (typedAction oldAction \<noteq> None \<and> typedAction newAction \<noteq> None)"
        using compareEndpointsRaw_returns [of oldAction newAction cs0] by simp
      with x Some Inl show ?thesis by (auto simp: foldl_compare_Inl)
    next
      case (Inr cs1)
      then have "typedAction oldAction \<noteq> None \<and> typedAction newAction \<noteq> None"
        using compareEndpointsRaw_returns [of oldAction newAction cs0] by blast
      with x Some Inr Cons [of cs1] show ?thesis by simp
    qed
  qed
qed

lemma diffSpecsRaw_returns:
  "(\<exists>r. diffSpecsRaw oldActions newActions = Inr r) \<longleftrightarrow> comparedComplete oldActions newActions"
proof -
  have "(\<exists>r. (case c of Inl e \<Rightarrow> Inl e | Inr cs \<Rightarrow> Inr (f cs)) = Inr r) \<longleftrightarrow> (\<exists>cs. c = Inr cs)"
    for c :: "diffError + DiffChange list" and f :: "DiffChange list \<Rightarrow> DiffResult"
    by (cases c) simp_all
  then show ?thesis
    unfolding diffSpecsRaw_def Let_def comparedComplete_def
    by (simp add: foldl_compare_returns)
qed

lemma diffSpecsRaw_TypeError:
  "diffSpecsRaw oldActions newActions = Inl TypeError
     \<longleftrightarrow> \<not> comparedComplete oldActions newActions"
proof -
  have "diffSpecsRaw oldActions newActions = Inl TypeError
      \<longleftrightarrow> \<not> (\<exists>r. diffSpecsRaw oldActions newActions = Inr r)"
    by (cases "diffSpecsRaw oldActions newActions") (simp_all, metis diffError.exhaust)
  then show ?thesis by (simp add: diffSpecsRaw_returns)
qed

lemma diffSpecsRaw_counts:
  assumes "diffSpecsRaw oldActions newActions = Inr r"
  shows "breakingCount r = length (filter (\<lambda>c. change_type c = Breaking) (changes r))
    \<and> nonBreakingCount r = length (filter (\<lambda>c. change_type c = NonBreaking) (changes r))
    \<and> breakingCount r + nonBreakingCount r = length (changes r)"
  using assms unfolding diffSpecsRaw_def Let_def
  by (auto split: sum.splits simp: length_filter_ChangeType)

text \<open>
  Claim C7, as the specification has it: \<open>diffSpecs\<close> has no failure path for any pair of
  action lists, absent collections counting as empty. The code throws when it compares
  \<open>GET /pets\<close> without the member \<open>queryParams\<close> with itself.
\<close>

theorem diffSpecsRaw_absent_collection:
  "diffSpecsRaw [petsNoQueryParams] [petsNoQueryParams] = Inl TypeError"
  by (simp add: diffSpecsRaw_def buildMapRaw_def mapSet_def mapGet_def mapHas_def Let_def
      compareEndpointsRaw_def typedAction_def petsNoQueryParams_def rawKey_def)

text \<open>
  Claim C7, amended. On every pair of action lists of the declared type \<open>diffSpecs\<close>
  returns a result, the one of the model of the sections above. On lists of actions that
  are of the declared type but for absent collections, it returns a result exactly if
  every action it compares has its four collections, and otherwise throws a
  \<open>TypeError\<close>: an absent collection does not count as empty. In every result it returns, \<open>breakingCount\<close> is the number of changes
  of type breaking, \<open>nonBreakingCount\<close> the number of type non-breaking, and the two add
  up to the length of \<open>changes\<close>.
\<close>

theorem diffSpecsRaw_total:
  "diffSpecsRaw (map rawAction oldActions) (map rawAction newActions)
     = Inr (diffSpecs oldActions newActions)
   \<and> ((\<exists>result. diffSpecsRaw rawOld rawNew = Inr result) = comparedComplete rawOld rawNew)
   \<and> ((diffSpecsRaw rawOld rawNew = Inl TypeError) = (\<not> comparedComplete rawOld rawNew))
   \<and> (diffSpecsRaw rawOld rawNew = Inr r \<longrightarrow>
        breakingCount r = length (filter (\<lambda>c. change_type c = Breaking) (changes r))
        \<and> nonBreakingCount r = length (filter (\<lambda>c. change_type c = NonBreaking) (changes r))
        \<and> breakingCount r + nonBreakingCount r = length (changes r))"
proof (intro conjI impI)
  show "diffSpecsRaw (map rawAction oldActions) (map rawAction newActions)
      = Inr (diffSpecs oldActions newActions)"
    by (rule diffSpecsRaw_rawAction)
  show "(\<exists>result. diffSpecsRaw rawOld rawNew = Inr result) = comparedComplete rawOld rawNew"
    by (rule diffSpecsRaw_returns)
  show "(diffSpecsRaw rawOld rawNew = Inl TypeError) = (\<not> comparedComplete rawOld rawNew)"
    by (rule diffSpecsRaw_TypeError)
next
  assume r: "diffSpecsRaw rawOld rawNew = Inr r"
  from diffSpecsRaw_counts [OF r]
  show "breakingCount r = length (filter (\<lambda>c. change_type c = Breaking) (changes r))"
    and "nonBreakingCount r = length (filter (\<lambda>c. change_type c = NonBreaking) (changes r))"
    and "breakingCount r + nonBreakingCount r = length (changes r)"
    by simp_all
qed

theorem diffSpecsRaw_total_witness:
  "diffSpecsRaw (map rawAction petsBefore) (map rawAction petsAfter)
     = Inr (diffSpecs petsBefore petsAfter)
   \<and> comparedComplete (map rawAction petsBefore) (map rawAction petsAfter)
   \<and> breakingCount (diffSpecs petsBefore petsAfter) = 3
   \<and> nonBreakingCount (diffSpecs petsBefore petsAfter) = 2
   \<and> length (changes (diffSpecs petsBefore petsAfter)) = 5
   \<and> \<not> comparedComplete [petsNoQueryParams] [petsNoQueryParams]"
proof -
  have three: "length (filter (\<lambda>c. change_type c = Breaking)
      (changes (diffSpecs petsBefore petsAfter))) = 3"
    by (simp add: diff_eval sample_defs)
  have two: "length (filter (\<lambda>c. change_type c = NonBreaking)
      (changes (diffSpecs petsBefore petsAfter))) = 2"
    by (simp add: diff_eval sample_defs)
  have absent: "\<not> comparedComplete [petsNoQueryParams] [petsNoQueryParams]"
    by (simp add: comparedComplete_def buildMapRaw_def mapSet_def mapGet_def typedAction_def
        petsNoQueryParams_def rawKey_def)
  show ?thesis
    using diffSpecsRaw_total [of petsBefore petsAfter "map rawAction petsBefore"
        "map rawAction petsAfter" "diffSpecs petsBefore petsAfter"] three two absent
    by auto
qed

section \<open>Properties of the schema conversion\<close>

lemmas schema_defs = typeSchema_def objectSchema_def plainField_def nestedLiteral_def
  deeperLiteral_def tagsSchema_def toTitleCase_def isWordChar_def toUpperCase_def

lemma schemaToFields_beyond: "schemaToFields schema (3 + n) = []"
  by (cases schema) simp

text \<open>
  Claim C1, as the specification has it: flattening the literal schema at depth 0 returns
  empty field lists from the third nested level on, and no field with key \<open>c\<close> anywhere
  in the result. The code returns a field with key \<open>c\<close>.
\<close>

theorem schemaToFields_nestedLiteral_c:
  "''c'' \<in> set (concat (map fieldKeys (schemaToFields nestedLiteral 0)))"
  by (simp add: schema_defs)

text \<open>
  Claim C1, amended. \<open>schemaToFields\<close> returns the empty list at every depth of 3 or more,
  and only there on account of the depth: the calls at depths 0, 1 and 2 convert their
  schema. In the literal schema the objects \<open>a\<close> and \<open>b\<close> are converted at depths 1 and 2,
  so the string property \<open>c\<close> of \<open>b\<close> is in the result, as the one nested field of \<open>b\<close>.
  With \<open>c\<close> an object of one property \<open>d\<close>, the conversion of \<open>c\<close> is the call at depth 3:
  the field \<open>c\<close> has the empty list as its nested fields and no field has key \<open>d\<close>.
\<close>

theorem schemaToFields_depth_bound:
  "schemaToFields schema (3 + n) = []
   \<and> schemaToFields nestedLiteral 0
     = [plainField ''a'' ''A'' TObject
          (Some [plainField ''b'' ''B'' TObject
             (Some [plainField ''c'' ''C'' TString None])])]
   \<and> schemaToFields deeperLiteral 0
     = [plainField ''a'' ''A'' TObject
          (Some [plainField ''b'' ''B'' TObject
             (Some [plainField ''c'' ''C'' TObject (Some [])])])]
   \<and> ''d'' \<notin> set (concat (map fieldKeys (schemaToFields deeperLiteral 0)))"
  by (simp add: schemaToFields_beyond schema_defs)

lemma list_all_concat_map:
  "(\<And>x. x \<in> set xs \<Longrightarrow> list_all P (concat (map g (F x))))
     \<Longrightarrow> list_all P (concat (map g (concat (map F xs))))"
  by (induction xs) simp_all

text \<open>
  Claim C10. Every element field in the result of \<open>schemaToFields\<close>, for every schema and
  depth and at any nesting in the result, has key \<open>item\<close>, label \<open>Item\<close> and is not
  required.
\<close>

theorem schemaToFields_items:
  "list_all (\<lambda>f. key f = ''item'' \<and> label f = ''Item'' \<and> \<not> required f)
     (concat (map itemFields (schemaToFields schema depth)))"
proof (induction schema depth rule: schemaToFields.induct)
  case (1 rf ty props req its de en fo df ex depth)
  let ?P = "\<lambda>f. key f = ''item'' \<and> label f = ''Item'' \<and> \<not> required f"
  let ?Q = "\<lambda>fs. list_all ?P (concat (map itemFields fs))"
  show ?case
  proof (cases "2 < depth")
    case True
    then show ?thesis by simp
  next
    case shallow: False
    show ?thesis
    proof (cases "ty = Some ''object'' \<and> props \<noteq> None")
      case obj: True
      then obtain ps where ps: "props = Some ps" by auto
      let ?F = "\<lambda>k pr. if schema_ref pr \<noteq> None then []
          else [ParsedField k (toTitleCase k) (schemaTypeToFieldType (schema_type pr))
                  (k \<in> set (case req of None \<Rightarrow> [] | Some r \<Rightarrow> r))
                  (schema_description pr) (schema_enum pr) (schema_format pr)
                  (schema_default pr) (schema_example pr)
                  (if schema_type pr = Some ''object'' \<and> schema_properties pr \<noteq> None
                   then Some (schemaToFields pr (depth + 1)) else None)
                  (case schema_items pr of
                     None \<Rightarrow> None
                   | Some itemSchema \<Rightarrow>
                       if schema_type pr = Some ''array'' \<and> schema_ref itemSchema = None
                       then Some (ParsedField ''item'' ''Item''
                              (schemaTypeToFieldType (schema_type itemSchema)) False
                              (schema_description itemSchema) (schema_enum itemSchema)
                              (schema_format itemSchema) None None
                              (if schema_type itemSchema = Some ''object''
                                  \<and> schema_properties itemSchema \<noteq> None
                               then Some (schemaToFields itemSchema (depth + 1)) else None)
                              None)
                       else None)]"
      have one: "?Q (?F k pr)"
        if mem: "(k, pr) \<in> set ps" for k pr
      proof (cases "schema_ref pr \<noteq> None")
        case True
        then show ?thesis by simp
      next
        case noref: False
        have nested: "schema_type pr = Some ''object'' \<and> schema_properties pr \<noteq> None
            \<Longrightarrow> ?Q (schemaToFields pr (depth + 1))"
          using "1.IH"(1) [OF shallow obj _ refl noref, of k] mem ps by simp
        have element: "schema_items pr = Some itemSchema
            \<Longrightarrow> schema_type pr = Some ''array'' \<and> schema_ref itemSchema = None
            \<Longrightarrow> schema_type itemSchema = Some ''object'' \<and> schema_properties itemSchema \<noteq> None
            \<Longrightarrow> ?Q (schemaToFields itemSchema (depth + 1))" for itemSchema
          using "1.IH"(2) [OF shallow obj _ refl noref, of k itemSchema] mem ps by simp
        show ?thesis
        proof (cases "schema_items pr")
          case None
          with noref nested show ?thesis by simp
        next
          case (Some itemSchema)
          with noref nested element [of itemSchema] show ?thesis by simp
        qed
      qed
      have "?Q (concat (map (\<lambda>(k, pr). if schema_ref pr \<noteq> None then []
          else [ParsedField k (toTitleCase k) (schemaTypeToFieldType (schema_type pr))
                  (k \<in> set (case req of None \<Rightarrow> [] | Some r \<Rightarrow> r))
                  (schema_description pr) (schema_enum pr) (schema_format pr)
                  (schema_default pr) (schema_example pr)
                  (if schema_type pr = Some ''object'' \<and> schema_properties pr \<noteq> None
                   then Some (schemaToFields pr (depth + 1)) else None)
                  (case schema_items pr of
                     None \<Rightarrow> None
                   | Some itemSchema \<Rightarrow>
                       if schema_type pr = Some ''array'' \<and> schema_ref itemSchema = None
                       then Some (ParsedField ''item'' ''Item''
                              (schemaTypeToFieldType (schema_type itemSchema)) False
                              (schema_description itemSchema) (schema_enum itemSchema)
                              (schema_format itemSchema) None None
                              (if schema_type itemSchema = Some ''object''
                                  \<and> schema_properties itemSchema \<noteq> None
                               then Some (schemaToFields itemSchema (depth + 1)) else None)
                              None)
                       else None)]) ps))"
      proof (rule list_all_concat_map)
        fix x
        assume x: "x \<in> set ps"
        obtain k pr where "x = (k, pr)" by (cases x)
        with x one [of k pr] show "?Q (case x of (k, pr) \<Rightarrow> ?F k pr)" by simp
      qed
      with shallow obj ps show ?thesis by simp
    next
      case notobj: False
      show ?thesis
      proof (cases its)
        case None
        with shallow notobj show ?thesis by simp
      next
        case (Some itemSchema)
        show ?thesis
        proof (cases "ty = Some ''array'' \<and> schema_ref itemSchema = None")
          case True
          from "1.IH"(3) [OF shallow notobj Some True] shallow notobj Some True
          show ?thesis by simp
        next
          case False
          with shallow notobj Some show ?thesis by auto
        qed
      qed
    qed
  qed
qed

theorem schemaToFields_items_witness:
  "map (\<lambda>f. (key f, label f, required f))
       (concat (map itemFields (schemaToFields tagsSchema 0)))
     = [(''item'', ''Item'', False), (''item'', ''Item'', False)]
   \<and> map (\<lambda>f. (key f, required f)) (schemaToFields tagsSchema 0) = [(''tags'', True)]"
  using schemaToFields_items [of tagsSchema 0]
  by (simp add: schema_defs)

section \<open>Properties of the authentication extractors\<close>

lemmas auth_samples = cookieAndBearer_def headerAndBearer_def namelessAndBasic_def
  basicAndQueryKey_def

lemmas auth_eval = extractAuthOpenAPI3_def extractAuthSwagger2_def apiKeyDescriptor_def
  noAuth_def Let_def usableApiKey_def truthy_def authPriority_def

lemma apiKeyDescriptor_None:
  "apiKeyDescriptor nm inValue = None \<longleftrightarrow> \<not> usableApiKey (Some (nm, inValue))"
  by (auto simp: apiKeyDescriptor_def usableApiKey_def truthy_def split: option.splits)

lemma apiKeyDescriptor_Some:
  "apiKeyDescriptor nm inValue = Some a \<Longrightarrow> auth_type a = ApiKey"
  by (auto simp: apiKeyDescriptor_def split: option.splits if_splits)

lemma find_apiKeyV3:
  "(case find (\<lambda>(n, s). isApiKeyV3 s) (filter (\<lambda>(n, s). isSecurityScheme s) ss) of
      Some (n, ApiKeySecurityScheme nm inValue) \<Rightarrow> f nm inValue
    | _ \<Rightarrow> d)
   = (case firstApiKeyV3 ss of None \<Rightarrow> d | Some (nm, inValue) \<Rightarrow> f nm inValue)"
  by (induction ss rule: firstApiKeyV3.induct) simp_all

lemma find_apiKeyV2:
  "(case find (\<lambda>(n, s). isApiKeyV2 s) ss of
      Some (n, SecuritySchemeApiKey nm inValue) \<Rightarrow> f nm inValue
    | _ \<Rightarrow> d)
   = (case firstApiKeyV2 ss of None \<Rightarrow> d | Some (nm, inValue) \<Rightarrow> f nm inValue)"
  by (induction ss rule: firstApiKeyV2.induct) simp_all

lemma extractAuthOpenAPI3_split:
  "extractAuthOpenAPI3 (Some ss) =
     (if ss = [] then noAuth
      else case (case firstApiKeyV3 ss of None \<Rightarrow> None
                 | Some (nm, inValue) \<Rightarrow> apiKeyDescriptor nm inValue) of
             Some a \<Rightarrow> a
           | None \<Rightarrow> afterApiKeyV3 (filter (\<lambda>(n, s). isSecurityScheme s) ss))"
  unfolding extractAuthOpenAPI3_def afterApiKeyV3_def Let_def find_apiKeyV3
  by simp

lemma extractAuthSwagger2_split:
  "extractAuthSwagger2 (Some ss) =
     (if ss = [] then noAuth
      else case (case firstApiKeyV2 ss of None \<Rightarrow> None
                 | Some (nm, inValue) \<Rightarrow> apiKeyDescriptor nm inValue) of
             Some a \<Rightarrow> a
           | None \<Rightarrow> afterApiKeyV2 ss)"
  unfolding extractAuthSwagger2_def afterApiKeyV2_def Let_def find_apiKeyV2
  by simp

lemma auth_type_afterApiKeyV3:
  "auth_type (afterApiKeyV3 (filter (\<lambda>(n, s). isSecurityScheme s) ss))
     = authPriority False (list_ex (\<lambda>(n, s). isBearerV3 s) ss)
         (list_ex (\<lambda>(n, s). isOAuth2V3 s) ss)"
proof (induction ss)
  case Nil
  show ?case by (simp add: afterApiKeyV3_def authPriority_def noAuth_def)
next
  case (Cons e ss)
  obtain n s where e: "e = (n, s)" by (cases e)
  from Cons e show ?case
    by (cases s)
      (auto simp: afterApiKeyV3_def authPriority_def noAuth_def Let_def
        split: option.splits prod.splits SecuritySchemeV3.splits if_splits)
qed

lemma auth_type_afterApiKeyV2:
  "auth_type (afterApiKeyV2 ss)
     = authPriority False (list_ex (\<lambda>(n, s). isBasicV2 s) ss)
         (list_ex (\<lambda>(n, s). isOAuth2V2 s) ss)"
proof (induction ss)
  case Nil
  show ?case by (simp add: afterApiKeyV2_def authPriority_def noAuth_def)
next
  case (Cons e ss)
  obtain n s where e: "e = (n, s)" by (cases e)
  from Cons e show ?case
    by (cases s)
      (auto simp: afterApiKeyV2_def authPriority_def noAuth_def
        split: option.splits prod.splits SecuritySchemeV2.splits if_splits)
qed

lemma auth_type_extractAuthOpenAPI3:
  "auth_type (extractAuthOpenAPI3 (Some ss))
     = authPriority (usableApiKey (firstApiKeyV3 ss))
         (list_ex (\<lambda>(n, s). isBearerV3 s) ss) (list_ex (\<lambda>(n, s). isOAuth2V3 s) ss)"
proof (cases "firstApiKeyV3 ss")
  case None
  then show ?thesis
    by (simp add: extractAuthOpenAPI3_split auth_type_afterApiKeyV3 usableApiKey_def
        authPriority_def noAuth_def)
next
  case (Some k)
  obtain nm inValue where k: "k = (nm, inValue)" by (cases k)
  from Some have ne: "ss \<noteq> []" by auto
  show ?thesis
  proof (cases "apiKeyDescriptor nm inValue")
    case None
    then have "\<not> usableApiKey (Some (nm, inValue))" by (simp add: apiKeyDescriptor_None)
    with ne Some k None show ?thesis
      by (simp add: extractAuthOpenAPI3_split auth_type_afterApiKeyV3 authPriority_def)
  next
    case (Some a)
    then have "usableApiKey (Some (nm, inValue))" and "auth_type a = ApiKey"
      using apiKeyDescriptor_None [of nm inValue] apiKeyDescriptor_Some by auto
    with ne \<open>firstApiKeyV3 ss = Some k\<close> k Some show ?thesis
      by (simp add: extractAuthOpenAPI3_split authPriority_def)
  qed
qed

lemma auth_type_extractAuthSwagger2:
  "auth_type (extractAuthSwagger2 (Some ss))
     = authPriority (usableApiKey (firstApiKeyV2 ss))
         (list_ex (\<lambda>(n, s). isBasicV2 s) ss) (list_ex (\<lambda>(n, s). isOAuth2V2 s) ss)"
proof (cases "firstApiKeyV2 ss")
  case None
  then show ?thesis
    by (simp add: extractAuthSwagger2_split auth_type_afterApiKeyV2 usableApiKey_def
        authPriority_def noAuth_def)
next
  case (Some k)
  obtain nm inValue where k: "k = (nm, inValue)" by (cases k)
  from Some have ne: "ss \<noteq> []" by auto
  show ?thesis
  proof (cases "apiKeyDescriptor nm inValue")
    case None
    then have "\<not> usableApiKey (Some (nm, inValue))" by (simp add: apiKeyDescriptor_None)
    with ne Some k None show ?thesis
      by (simp add: extractAuthSwagger2_split auth_type_afterApiKeyV2 authPriority_def)
  next
    case (Some a)
    then have "usableApiKey (Some (nm, inValue))" and "auth_type a = ApiKey"
      using apiKeyDescriptor_None [of nm inValue] apiKeyDescriptor_Some by auto
    with ne \<open>firstApiKeyV2 ss = Some k\<close> k Some show ?thesis
      by (simp add: extractAuthSwagger2_split authPriority_def)
  qed
qed

lemma firstApiKeyV3_filter: "firstApiKeyV3 (filter (\<lambda>(n, s). \<not> isApiKeyV3 s) ss) = None"
proof (induction ss)
  case Nil
  show ?case by simp
next
  case (Cons e ss)
  obtain n s where e: "e = (n, s)" by (cases e)
  from Cons e show ?case by (cases s) simp_all
qed

lemma firstApiKeyV2_filter: "firstApiKeyV2 (filter (\<lambda>(n, s). \<not> isApiKeyV2 s) ss) = None"
proof (induction ss)
  case Nil
  show ?case by simp
next
  case (Cons e ss)
  obtain n s where e: "e = (n, s)" by (cases e)
  from Cons e show ?case by (cases s) simp_all
qed

lemma find_filter_implies:
  "(\<And>x. P x \<Longrightarrow> Q x) \<Longrightarrow> find P (filter Q xs) = find P xs"
  by (induction xs) auto

lemma afterApiKeyV3_filter:
  "afterApiKeyV3 (filter (\<lambda>(n, s). isSecurityScheme s) (filter (\<lambda>(n, s). \<not> isApiKeyV3 s) ss))
     = afterApiKeyV3 (filter (\<lambda>(n, s). isSecurityScheme s) ss)"
proof -
  have comm: "filter (\<lambda>(n, s). isSecurityScheme s) (filter (\<lambda>(n, s). \<not> isApiKeyV3 s) ss)
      = filter (\<lambda>(n, s). \<not> isApiKeyV3 s) (filter (\<lambda>(n, s). isSecurityScheme s) ss)"
    by (induction ss) auto
  have b: "find (\<lambda>(n, s). isBearerV3 s) (filter (\<lambda>(n, s). \<not> isApiKeyV3 s) es)
      = find (\<lambda>(n, s). isBearerV3 s) es" for es :: "(string \<times> SecuritySchemeV3) list"
    by (rule find_filter_implies) (auto elim: isBearerV3.elims)
  have o: "find (\<lambda>(n, s). isOAuth2V3 s) (filter (\<lambda>(n, s). \<not> isApiKeyV3 s) es)
      = find (\<lambda>(n, s). isOAuth2V3 s) es" for es :: "(string \<times> SecuritySchemeV3) list"
    by (rule find_filter_implies) (auto elim: isOAuth2V3.elims)
  show ?thesis unfolding comm afterApiKeyV3_def b o ..
qed

lemma afterApiKeyV2_filter:
  "afterApiKeyV2 (filter (\<lambda>(n, s). \<not> isApiKeyV2 s) ss) = afterApiKeyV2 ss"
proof -
  have b: "find (\<lambda>(n, s). isBasicV2 s) (filter (\<lambda>(n, s). \<not> isApiKeyV2 s) ss)
      = find (\<lambda>(n, s). isBasicV2 s) ss"
    by (rule find_filter_implies) (auto elim: isBasicV2.elims)
  have o: "find (\<lambda>(n, s). isOAuth2V2 s) (filter (\<lambda>(n, s). \<not> isApiKeyV2 s) ss)
      = find (\<lambda>(n, s). isOAuth2V2 s) ss"
    by (rule find_filter_implies) (auto elim: isOAuth2V2.elims)
  show ?thesis unfolding afterApiKeyV2_def b o ..
qed

lemma extractAuthOpenAPI3_unusable:
  assumes "firstApiKeyV3 ss = Some k" and "\<not> usableApiKey (Some k)"
  shows "extractAuthOpenAPI3 (Some ss)
      = extractAuthOpenAPI3 (Some (filter (\<lambda>(n, s). \<not> isApiKeyV3 s) ss))"
proof -
  obtain nm inValue where k: "k = (nm, inValue)" by (cases k)
  from assms k have none: "apiKeyDescriptor nm inValue = None"
    by (simp add: apiKeyDescriptor_None)
  from assms(1) have ne: "ss \<noteq> []" by auto
  have left: "extractAuthOpenAPI3 (Some ss)
      = afterApiKeyV3 (filter (\<lambda>(n, s). isSecurityScheme s) ss)"
    using ne assms(1) k none by (simp add: extractAuthOpenAPI3_split)
  have right: "extractAuthOpenAPI3 (Some (filter (\<lambda>(n, s). \<not> isApiKeyV3 s) ss))
      = afterApiKeyV3 (filter (\<lambda>(n, s). isSecurityScheme s) ss)"
  proof (cases "filter (\<lambda>(n, s). \<not> isApiKeyV3 s) ss = []")
    case True
    have "afterApiKeyV3 (filter (\<lambda>(n, s). isSecurityScheme s) ss)
        = afterApiKeyV3 (filter (\<lambda>(n, s). isSecurityScheme s) [])"
      using afterApiKeyV3_filter [of ss] True by simp
    then show ?thesis
      using True by (simp add: extractAuthOpenAPI3_split afterApiKeyV3_def)
  next
    case False
    then show ?thesis
      by (simp add: extractAuthOpenAPI3_split firstApiKeyV3_filter afterApiKeyV3_filter
          del: filter_filter)
  qed
  from left right show ?thesis by simp
qed

lemma extractAuthSwagger2_unusable:
  assumes "firstApiKeyV2 ss = Some k" and "\<not> usableApiKey (Some k)"
  shows "extractAuthSwagger2 (Some ss)
      = extractAuthSwagger2 (Some (filter (\<lambda>(n, s). \<not> isApiKeyV2 s) ss))"
proof -
  obtain nm inValue where k: "k = (nm, inValue)" by (cases k)
  from assms k have none: "apiKeyDescriptor nm inValue = None"
    by (simp add: apiKeyDescriptor_None)
  from assms(1) have ne: "ss \<noteq> []" by auto
  have left: "extractAuthSwagger2 (Some ss) = afterApiKeyV2 ss"
    using ne assms(1) k none by (simp add: extractAuthSwagger2_split)
  have right: "extractAuthSwagger2 (Some (filter (\<lambda>(n, s). \<not> isApiKeyV2 s) ss))
      = afterApiKeyV2 ss"
  proof (cases "filter (\<lambda>(n, s). \<not> isApiKeyV2 s) ss = []")
    case True
    have "afterApiKeyV2 ss = afterApiKeyV2 []"
      using afterApiKeyV2_filter [of ss] True by simp
    then show ?thesis
      using True by (simp add: extractAuthSwagger2_split afterApiKeyV2_def)
  next
    case False
    then show ?thesis
      by (simp add: extractAuthSwagger2_split firstApiKeyV2_filter afterApiKeyV2_filter
          del: filter_filter)
  qed
  from left right show ?thesis by simp
qed

subsection \<open>Priority of the scheme kinds\<close>

text \<open>
  Claim C4, as the specification has it: a document that declares both an API-key scheme
  and a bearer scheme resolves to type apiKey. For the OpenAPI 3 schemes
  \<open>cookieAndBearer\<close>, whose API key is sent in a cookie, the code returns type bearer.
\<close>

theorem extractAuthOpenAPI3_cookie_bearer:
  "list_ex (\<lambda>(n, s). isApiKeyV3 s) cookieAndBearer
   \<and> list_ex (\<lambda>(n, s). isBearerV3 s) cookieAndBearer
   \<and> auth_type (extractAuthOpenAPI3 (Some cookieAndBearer)) = Bearer"
  by (simp add: auth_eval auth_samples)

lemma isBearerV3_spelling:
  "(\<lambda>(n, s). s = HttpSecurityScheme ''bearer'') = (\<lambda>(n :: string, s). isBearerV3 s)"
proof (rule ext)
  fix e :: "string \<times> SecuritySchemeV3"
  obtain n s where e: "e = (n, s)" by (cases e)
  show "(case e of (n, s) \<Rightarrow> s = HttpSecurityScheme ''bearer'')
      = (case e of (n, s) \<Rightarrow> isBearerV3 s)"
    unfolding e by (cases s) auto
qed

lemma isBasicV2_constructor:
  "(\<lambda>(n, s). s = SecuritySchemeBasic) = (\<lambda>(n :: string, s). isBasicV2 s)"
proof (rule ext)
  fix e :: "string \<times> SecuritySchemeV2"
  obtain n s where e: "e = (n, s)" by (cases e)
  show "(case e of (n, s) \<Rightarrow> s = SecuritySchemeBasic) = (case e of (n, s) \<Rightarrow> isBasicV2 s)"
    unfolding e by (cases s) auto
qed

text \<open>
  Claim C4, amended. Absent or empty scheme collections give type none. Otherwise the
  type is chosen in a fixed order of four steps. First apiKey, if the first API-key
  scheme of the collection is usable, that is, has a non-empty name and the location
  \<open>header\<close> or \<open>query\<close>. Then bearer: in the OpenAPI 3 dialect if the collection has an
  \<open>http\<close> scheme whose \<open>scheme\<close> is the string \<open>bearer\<close>, in exactly this spelling (the
  code compares with \<open>===\<close>; \<open>basic\<close>, \<open>Bearer\<close> and every other value do not count), in
  the Swagger dialect if it has a scheme of type \<open>basic\<close>. Then oauth2, if it has an
  OAuth2 scheme. Then none. In particular a collection with such a bearer (basic) scheme
  whose first API-key scheme is usable resolves to type apiKey.
\<close>

theorem extractAuth_priority:
  "auth_type (extractAuthOpenAPI3 None) = NoAuth
   \<and> auth_type (extractAuthOpenAPI3 (Some [])) = NoAuth
   \<and> auth_type (extractAuthSwagger2 None) = NoAuth
   \<and> auth_type (extractAuthSwagger2 (Some [])) = NoAuth
   \<and> auth_type (extractAuthOpenAPI3 (Some ss))
       = authPriority (usableApiKey (firstApiKeyV3 ss))
           (list_ex (\<lambda>(n, s). s = HttpSecurityScheme ''bearer'') ss)
           (list_ex (\<lambda>(n, s). isOAuth2V3 s) ss)
   \<and> auth_type (extractAuthSwagger2 (Some ds))
       = authPriority (usableApiKey (firstApiKeyV2 ds))
           (list_ex (\<lambda>(n, s). s = SecuritySchemeBasic) ds)
           (list_ex (\<lambda>(n, s). isOAuth2V2 s) ds)
   \<and> (usableApiKey (firstApiKeyV3 ss) \<and> list_ex (\<lambda>(n, s). s = HttpSecurityScheme ''bearer'') ss
        \<longrightarrow> auth_type (extractAuthOpenAPI3 (Some ss)) = ApiKey)
   \<and> (usableApiKey (firstApiKeyV2 ds) \<and> list_ex (\<lambda>(n, s). s = SecuritySchemeBasic) ds
        \<longrightarrow> auth_type (extractAuthSwagger2 (Some ds)) = ApiKey)"
proof -
  have none: "auth_type (extractAuthOpenAPI3 None) = NoAuth"
    "auth_type (extractAuthOpenAPI3 (Some [])) = NoAuth"
    "auth_type (extractAuthSwagger2 None) = NoAuth"
    "auth_type (extractAuthSwagger2 (Some [])) = NoAuth"
    by (simp_all add: extractAuthOpenAPI3_def extractAuthSwagger2_def noAuth_def)
  show ?thesis
    unfolding isBearerV3_spelling isBasicV2_constructor
    using none by (simp add: auth_type_extractAuthOpenAPI3 auth_type_extractAuthSwagger2
        authPriority_def)
qed

theorem extractAuth_priority_witness:
  "usableApiKey (firstApiKeyV3 headerAndBearer)
   \<and> list_ex (\<lambda>(n, s). s = HttpSecurityScheme ''bearer'') headerAndBearer
   \<and> extractAuthOpenAPI3 (Some headerAndBearer)
       = \<lparr>auth_type = ApiKey, config = Some (ApiKeyAuthConfig ''X-API-Key'' Header)\<rparr>
   \<and> usableApiKey (firstApiKeyV2 basicAndQueryKey)
   \<and> list_ex (\<lambda>(n, s). s = SecuritySchemeBasic) basicAndQueryKey
   \<and> extractAuthSwagger2 (Some basicAndQueryKey)
       = \<lparr>auth_type = ApiKey, config = Some (ApiKeyAuthConfig ''api_key'' Query)\<rparr>"
  using extractAuth_priority [of headerAndBearer basicAndQueryKey]
  by (simp add: auth_eval auth_samples)

subsection \<open>An API-key scheme that cannot be used\<close>

text \<open>
  Claim C9. If the first API-key scheme of the collection lacks a name, has the empty
  name, or has a location other than header and query, then the extractor (of either
  dialect) returns no apiKey descriptor; as a total function it has no failure to
  return either. Its result is the one for the collection without its API-key schemes:
  bearer (basic) if there is such a scheme, else OAuth2 if there is one, else none. A
  collection whose only scheme is such an API-key scheme gives type none with no
  configuration.
\<close>

theorem unusable_apiKey_falls_through:
  "(firstApiKeyV3 ss = Some k \<and> \<not> usableApiKey (Some k) \<longrightarrow>
      auth_type (extractAuthOpenAPI3 (Some ss)) \<noteq> ApiKey
      \<and> extractAuthOpenAPI3 (Some ss)
          = extractAuthOpenAPI3 (Some (filter (\<lambda>(n, s). \<not> isApiKeyV3 s) ss))
      \<and> auth_type (extractAuthOpenAPI3 (Some ss))
          = authPriority False (list_ex (\<lambda>(n, s). isBearerV3 s) ss)
              (list_ex (\<lambda>(n, s). isOAuth2V3 s) ss))
   \<and> (firstApiKeyV2 ds = Some k' \<and> \<not> usableApiKey (Some k') \<longrightarrow>
      auth_type (extractAuthSwagger2 (Some ds)) \<noteq> ApiKey
      \<and> extractAuthSwagger2 (Some ds)
          = extractAuthSwagger2 (Some (filter (\<lambda>(n, s). \<not> isApiKeyV2 s) ds))
      \<and> auth_type (extractAuthSwagger2 (Some ds))
          = authPriority False (list_ex (\<lambda>(n, s). isBasicV2 s) ds)
              (list_ex (\<lambda>(n, s). isOAuth2V2 s) ds))
   \<and> (\<not> usableApiKey (Some (nm, inValue)) \<longrightarrow>
      extractAuthOpenAPI3 (Some [(n, ApiKeySecurityScheme nm inValue)]) = noAuth
      \<and> extractAuthSwagger2 (Some [(n, SecuritySchemeApiKey nm inValue)]) = noAuth)"
proof (intro conjI impI)
  assume a: "firstApiKeyV3 ss = Some k \<and> \<not> usableApiKey (Some k)"
  then show t: "auth_type (extractAuthOpenAPI3 (Some ss))
      = authPriority False (list_ex (\<lambda>(n, s). isBearerV3 s) ss)
          (list_ex (\<lambda>(n, s). isOAuth2V3 s) ss)"
    by (simp add: auth_type_extractAuthOpenAPI3)
  then show "auth_type (extractAuthOpenAPI3 (Some ss)) \<noteq> ApiKey"
    by (simp add: authPriority_def)
  from a show "extractAuthOpenAPI3 (Some ss)
      = extractAuthOpenAPI3 (Some (filter (\<lambda>(n, s). \<not> isApiKeyV3 s) ss))"
    by (simp add: extractAuthOpenAPI3_unusable)
next
  assume a: "firstApiKeyV2 ds = Some k' \<and> \<not> usableApiKey (Some k')"
  then show t: "auth_type (extractAuthSwagger2 (Some ds))
      = authPriority False (list_ex (\<lambda>(n, s). isBasicV2 s) ds)
          (list_ex (\<lambda>(n, s). isOAuth2V2 s) ds)"
    by (simp add: auth_type_extractAuthSwagger2)
  then show "auth_type (extractAuthSwagger2 (Some ds)) \<noteq> ApiKey"
    by (simp add: authPriority_def)
  from a show "extractAuthSwagger2 (Some ds)
      = extractAuthSwagger2 (Some (filter (\<lambda>(n, s). \<not> isApiKeyV2 s) ds))"
    by (simp add: extractAuthSwagger2_unusable)
next
  assume "\<not> usableApiKey (Some (nm, inValue))"
  then have none: "apiKeyDescriptor nm inValue = None"
    by (simp add: apiKeyDescriptor_None)
  then show "extractAuthOpenAPI3 (Some [(n, ApiKeySecurityScheme nm inValue)]) = noAuth"
    by (simp add: extractAuthOpenAPI3_split afterApiKeyV3_def)
  from none show "extractAuthSwagger2 (Some [(n, SecuritySchemeApiKey nm inValue)]) = noAuth"
    by (simp add: extractAuthSwagger2_split afterApiKeyV2_def)
qed

theorem unusable_apiKey_falls_through_witness:
  "firstApiKeyV3 cookieAndBearer = Some (Some ''SESSION'', Some ''cookie'')
   \<and> \<not> usableApiKey (Some (Some ''SESSION'', Some ''cookie''))
   \<and> extractAuthOpenAPI3 (Some cookieAndBearer)
       = \<lparr>auth_type = Bearer, config = Some (BearerAuthConfig ''bearer'')\<rparr>
   \<and> firstApiKeyV2 namelessAndBasic = Some (Some '''', Some ''query'')
   \<and> \<not> usableApiKey (Some (Some '''', Some ''query''))
   \<and> extractAuthSwagger2 (Some namelessAndBasic)
       = \<lparr>auth_type = Bearer, config = Some (BearerAuthConfig ''basic'')\<rparr>
   \<and> \<not> usableApiKey (Some (None, Some ''header''))
   \<and> extractAuthOpenAPI3 (Some [(''key'', ApiKeySecurityScheme None (Some ''header''))]) = noAuth
   \<and> extractAuthSwagger2 (Some [(''key'', SecuritySchemeApiKey None (Some ''header''))]) = noAuth"
  using unusable_apiKey_falls_through [of cookieAndBearer "(Some ''SESSION'', Some ''cookie'')"
      namelessAndBasic "(Some '''', Some ''query'')" None "Some ''header''" "''key''"]
  by (simp add: auth_eval auth_samples)

section \<open>Properties of \<open>parseSpec\<close>\<close>

lemma isOpenAPI3_iff:
  "isOpenAPI3 v \<longleftrightarrow> (\<exists>s. getMember v ''openapi'' = Some (JStr s) \<and> prefix ''3.'' s)"
proof (cases v)
  case (JObj kvs)
  then show ?thesis
    by (auto simp: isOpenAPI3_def split: option.splits json.splits)
qed (simp_all add: isOpenAPI3_def)

lemma isSwagger2_iff:
  "isSwagger2 v \<longleftrightarrow> getMember v ''swagger'' = Some (JStr ''2.0'')"
  by (cases v) (auto simp: isSwagger2_def)

text \<open>
  Claim C8. Let the validated document be the one \<open>validate\<close> returns or, after a
  validation error that names a missing reference, the one \<open>parse\<close> returns. If its
  \<open>openapi\<close> member is not a string that starts with \<open>3.\<close> and its \<open>swagger\<close> member is
  not the string \<open>2.0\<close>, then \<open>parseSpec\<close> returns the failure with the error text
  \<open>Unsupported specification version\<close>, whatever the two extractors would do: no
  canonical model is returned.
\<close>

theorem parseSpec_unsupported_version:
  assumes "validate spec = Inr v
      \<or> (validate spec = Inl e
          \<and> (stringIncludes (messageOr e ''Unknown validation error'') ''Missing $ref pointer''
              \<or> stringIncludes (messageOr e ''Unknown validation error'') ''does not exist'')
          \<and> parse spec = Inr v)"
    and "\<not> (\<exists>s. getMember v ''openapi'' = Some (JStr s) \<and> prefix ''3.'' s)"
    and "getMember v ''swagger'' \<noteq> Some (JStr ''2.0'')"
  shows "parseSpec validate parse openapiExtractor swaggerExtractor spec
      = ParseFailure ''Unsupported specification version''
          (Some ''Only OpenAPI 3.x and Swagger 2.0 are supported'')
    \<and> \<not> success (parseSpec validate parse openapiExtractor swaggerExtractor spec)"
proof -
  from assms(2) have o: "\<not> isOpenAPI3 v" by (simp add: isOpenAPI3_iff)
  from assms(3) have s: "\<not> isSwagger2 v" by (simp add: isSwagger2_iff)
  from assms(1) have "parseSpec validate parse openapiExtractor swaggerExtractor spec
      = ParseFailure ''Unsupported specification version''
          (Some ''Only OpenAPI 3.x and Swagger 2.0 are supported'')"
  proof
    assume "validate spec = Inr v"
    with o s show ?thesis by (simp add: parseSpec_def Let_def)
  next
    assume "validate spec = Inl e
          \<and> (stringIncludes (messageOr e ''Unknown validation error'') ''Missing $ref pointer''
              \<or> stringIncludes (messageOr e ''Unknown validation error'') ''does not exist'')
          \<and> parse spec = Inr v"
    with o s show ?thesis by (auto simp: parseSpec_def Let_def)
  qed
  then show ?thesis by simp
qed

lemmas parse_samples = noMarker_def otherVersions_def acceptAll_def missingRef_def notCalled_def

theorem parseSpec_unsupported_version_witness:
  "parseSpec acceptAll acceptAll notCalled notCalled noMarker
     = ParseFailure ''Unsupported specification version''
         (Some ''Only OpenAPI 3.x and Swagger 2.0 are supported'')
   \<and> parseSpec missingRef acceptAll notCalled notCalled otherVersions
     = ParseFailure ''Unsupported specification version''
         (Some ''Only OpenAPI 3.x and Swagger 2.0 are supported'')
   \<and> \<not> success (parseSpec missingRef acceptAll notCalled notCalled otherVersions)"
proof -
  have a: "acceptAll noMarker = Inr noMarker
      \<or> (acceptAll noMarker = Inl OtherValue
          \<and> (stringIncludes (messageOr OtherValue ''Unknown validation error'') ''Missing $ref pointer''
              \<or> stringIncludes (messageOr OtherValue ''Unknown validation error'') ''does not exist'')
          \<and> acceptAll noMarker = Inr noMarker)"
    by (simp add: acceptAll_def)
  have a2: "\<not> (\<exists>s. getMember noMarker ''openapi'' = Some (JStr s) \<and> prefix ''3.'' s)"
    and a3: "getMember noMarker ''swagger'' \<noteq> Some (JStr ''2.0'')"
    by (simp_all add: noMarker_def)
  let ?e = "ErrorObject ''Missing $ref pointer #/components/schemas/Pet''"
  have b: "missingRef otherVersions = Inr otherVersions
      \<or> (missingRef otherVersions = Inl ?e
          \<and> (stringIncludes (messageOr ?e ''Unknown validation error'') ''Missing $ref pointer''
              \<or> stringIncludes (messageOr ?e ''Unknown validation error'') ''does not exist'')
          \<and> acceptAll otherVersions = Inr otherVersions)"
    by (simp add: acceptAll_def missingRef_def)
  have b2: "\<not> (\<exists>s. getMember otherVersions ''openapi'' = Some (JStr s) \<and> prefix ''3.'' s)"
    and b3: "getMember otherVersions ''swagger'' \<noteq> Some (JStr ''2.0'')"
    by (simp_all add: otherVersions_def)
  show ?thesis
    using parseSpec_unsupported_version [where validate = acceptAll and parse = acceptAll
        and spec = noMarker and v = noMarker and e = OtherValue
        and openapiExtractor = notCalled and swaggerExtractor = notCalled, OF a a2 a3]
      parseSpec_unsupported_version [where validate = missingRef and parse = acceptAll
        and spec = otherVersions and v = otherVersions and e = ?e
        and openapiExtractor = notCalled and swaggerExtractor = notCalled, OF b b2 b3]
    by simp
qed

end
